theory Spec2Isabelle
  imports Main "HOL-Library.Word"
begin

section \<open>Basic types\<close>

text \<open>
  The dispatcher of \<^verbatim>\<open>triplegit/src/async_file_io.cpp\<close> is embedded as functions on one
  explicit state, \<open>world\<close>. \<^verbatim>\<open>size_t\<close> is taken as 64 bits wide (an LP64 build, where
  \<^verbatim>\<open>long\<close> has the same width). A path is the list of its components below the root,
  so that \<^verbatim>\<open>parent_path()\<close> drops the last one.
\<close>

type_synonym size_t = "64 word"
type_synonym path = "string list"

definition parent_path :: "path \<Rightarrow> path" where
  "parent_path p = butlast p"

text \<open>
  \<^verbatim>\<open>file_flags\<close> is a bitset enum whose declaration is in the absent header; the source
  only forms unions (\<^verbatim>\<open>|\<close>), intersections (\<^verbatim>\<open>&\<close>), complements (\<^verbatim>\<open>~\<close>) and the
  test \<^verbatim>\<open>X==(flags & X)\<close>. It is embedded as a set of flag names:
  the test is membership (inclusion for a union of two flags).
\<close>

datatype file_flag =
  Read | Write | Append | Truncate | Create | CreateOnlyIfNotExist | AutoFlush
  | WillBeSequentiallyAccessed | OSDirect | OSSync

type_synonym file_flags = "file_flag set"

datatype exn =
  runtime_error string
  | os_error int path
  | future_uninitialized
  | bad_alloc

text \<open>
  How a call can end without returning: a C++ exception; \<^verbatim>\<open>std::terminate\<close> or a failed
  \<^verbatim>\<open>assert\<close> (the source is modelled as built without \<^verbatim>\<open>NDEBUG\<close>, the build its own
  \<^verbatim>\<open>#ifndef NDEBUG\<close> blocks are for); a wait on a future nobody can fulfil while
  the caller holds \<^verbatim>\<open>opslock\<close>; undefined behaviour (a null handle dereferenced).
\<close>

datatype failure = Threw exn | Terminated | Blocked | Undefined

type_synonym 'a res = "failure + 'a"

text \<open>A \<^verbatim>\<open>shared_ptr<async_io_handle>\<close> is an address in the store of handles, or null.\<close>

type_synonym hptr = "nat option"

text \<open>A \<^verbatim>\<open>shared_future\<close> names a cell of shared state, or is not \<^verbatim>\<open>valid()\<close>.\<close>

type_synonym future = "nat option"

datatype fut_state = Pending | Ready hptr | Failed exn

record async_io_handle_posix =
  h_path :: path
  fd :: int
  has_been_added :: bool
  autoflush :: bool
  has_ever_been_fsynced :: bool
  byteswritten :: size_t
  byteswrittenatlastfsync :: size_t

record async_io_op =
  op_id :: size_t
  op_h :: future

record async_path_op_req =
  p_precondition :: async_io_op
  p_path :: path
  p_flags :: file_flags

record async_data_op_req =
  d_precondition :: async_io_op
  d_where :: int
  d_buffers :: "nat list"

text \<open>
  A completion thunk is the implementation routine with its bound arguments, as a tagged
  union. A user callback is a function of the id and the handle; it may throw.
\<close>

datatype prim =
  F_dodir async_path_op_req
  | F_dormdir async_path_op_req
  | F_dofile async_path_op_req
  | F_dormfile async_path_op_req
  | F_dosync async_io_op
  | F_doclose async_io_op
  | F_doread async_data_op_req
  | F_dowrite async_data_op_req
  | F_invoke_user_completion "size_t \<Rightarrow> hptr \<Rightarrow> exn + (bool \<times> hptr)"

datatype OpType =
  OpUnknown | OpUserCompletion | Op_dir | Op_rmdir | Op_file | Op_rmfile
  | Op_sync | Op_close | Op_read | Op_write

record async_file_io_dispatcher_op =
  optype :: OpType
  h_fut :: future
  detached_promise :: "nat option"
  completions :: "(size_t \<times> prim) list"

record task =
  t_cell :: nat
  t_id :: size_t
  t_prim :: prim
  t_h :: hptr

subsection \<open>The operating system\<close>

text \<open>
  The POSIX calls the backend makes act on a small file system: an association list
  from paths to the kind of inode there, a table of open descriptors, \<^verbatim>\<open>errno\<close>, and the log of the calls
  made. Contents of files are not tracked. Descriptors are handed out from a counter.
  The kernel is simplified where no statement below depends on it: the number of a closed
  descriptor is not handed out again; a path below a regular file is reported as
  \<^verbatim>\<open>ENOENT\<close>, not \<^verbatim>\<open>ENOTDIR\<close>; a transfer is not checked against the access mode of
  the descriptor; and a transfer is never short.
\<close>

datatype inode = Dir | Reg

datatype oflag = O_RDONLY | O_WRONLY | O_RDWR | O_APPEND | O_TRUNC | O_EXCL | O_CREAT | O_DIRECT

datatype syscall =
  sys_mkdir path | sys_stat path | sys_open path "oflag set" | sys_fsync int | sys_close int
  | sys_unlink path | sys_rmdir path | sys_preadv int int | sys_pwritev int int

datatype event = ev_I size_t | ev_C size_t | ev_R size_t | ev_ER size_t

abbreviation ENOENT :: int where "ENOENT \<equiv> 2"
abbreviation EBADF :: int where "EBADF \<equiv> 9"
abbreviation EEXIST :: int where "EEXIST \<equiv> 17"
abbreviation ENOTDIR :: int where "ENOTDIR \<equiv> 20"
abbreviation EISDIR :: int where "EISDIR \<equiv> 21"
abbreviation ENOTEMPTY :: int where "ENOTEMPTY \<equiv> 39"

text \<open>
  The state: the fields of \<^verbatim>\<open>async_file_io_dispatcher_base_p\<close> (the two locks apart), the
  thread pool's queue and the shared states of its futures and of the detached promises,
  the store of handles, the operating system, and the trace of the events at which the
  source has a \<^verbatim>\<open>DEBUG_PRINT\<close> (I: inserted, C: child enqueued, R: removed on
  completion, E R: erased by the undo action).
\<close>

record world =
  flagsforce :: file_flags
  flagsmask :: file_flags
  fds :: "int \<rightharpoonup> nat"
  monotoniccount :: size_t
  ops :: "size_t \<rightharpoonup> async_file_io_dispatcher_op"
  pool :: "task list"
  futures :: "fut_state list"
  handles :: "async_io_handle_posix list"
  files :: "(path \<times> inode) list"
  open_fds :: "int \<rightharpoonup> path"
  next_fd :: int
  errno :: int
  syslog :: "syscall list"
  dbg :: "event list"

definition posix_mkdir :: "path \<Rightarrow> world \<Rightarrow> int \<times> world" where
  "posix_mkdir p w =
     (let w1 = w\<lparr>syslog := syslog w @ [sys_mkdir p]\<rparr> in
      if map_of (files w) p \<noteq> None then (- 1, w1\<lparr>errno := EEXIST\<rparr>)
      else if map_of (files w) (parent_path p) \<noteq> Some Dir then (- 1, w1\<lparr>errno := ENOENT\<rparr>)
      else (0, w1\<lparr>files := (p, Dir) # files w\<rparr>))"

text \<open>\<^verbatim>\<open>stat\<close>: the return value and whether \<^verbatim>\<open>S_ISDIR(s.st_mode)\<close> holds of the buffer,
  which the caller zeroed.\<close>

definition posix_stat :: "path \<Rightarrow> world \<Rightarrow> (int \<times> bool) \<times> world" where
  "posix_stat p w =
     (let w1 = w\<lparr>syslog := syslog w @ [sys_stat p]\<rparr> in
      case map_of (files w) p of
        None \<Rightarrow> ((- 1, False), w1\<lparr>errno := ENOENT\<rparr>)
      | Some k \<Rightarrow> ((0, k = Dir), w1))"

definition new_fd :: "path \<Rightarrow> world \<Rightarrow> int \<times> world" where
  "new_fd p w =
     (next_fd w, w\<lparr>open_fds := (open_fds w)(next_fd w \<mapsto> p), next_fd := next_fd w + 1\<rparr>)"

definition posix_open :: "path \<Rightarrow> oflag set \<Rightarrow> world \<Rightarrow> int \<times> world" where
  "posix_open p fl w =
     (let w1 = w\<lparr>syslog := syslog w @ [sys_open p fl]\<rparr> in
      case map_of (files w) p of
        Some k \<Rightarrow>
          if O_CREAT \<in> fl \<and> O_EXCL \<in> fl then (- 1, w1\<lparr>errno := EEXIST\<rparr>)
          else if k = Dir \<and> (O_WRONLY \<in> fl \<or> O_RDWR \<in> fl \<or> O_CREAT \<in> fl)
            then (- 1, w1\<lparr>errno := EISDIR\<rparr>)
          else new_fd p w1
      | None \<Rightarrow>
          if O_CREAT \<in> fl \<and> map_of (files w) (parent_path p) = Some Dir
            then new_fd p (w1\<lparr>files := (p, Reg) # files w\<rparr>)
          else (- 1, w1\<lparr>errno := ENOENT\<rparr>))"

definition posix_fsync :: "int \<Rightarrow> world \<Rightarrow> int \<times> world" where
  "posix_fsync d w =
     (let w1 = w\<lparr>syslog := syslog w @ [sys_fsync d]\<rparr> in
      if open_fds w d = None then (- 1, w1\<lparr>errno := EBADF\<rparr>) else (0, w1))"

definition posix_close :: "int \<Rightarrow> world \<Rightarrow> int \<times> world" where
  "posix_close d w =
     (let w1 = w\<lparr>syslog := syslog w @ [sys_close d]\<rparr> in
      if open_fds w d = None then (- 1, w1\<lparr>errno := EBADF\<rparr>)
      else (0, w1\<lparr>open_fds := (open_fds w)(d := None)\<rparr>))"

definition posix_unlink :: "path \<Rightarrow> world \<Rightarrow> int \<times> world" where
  "posix_unlink p w =
     (let w1 = w\<lparr>syslog := syslog w @ [sys_unlink p]\<rparr> in
      case map_of (files w) p of
        None \<Rightarrow> (- 1, w1\<lparr>errno := ENOENT\<rparr>)
      | Some Dir \<Rightarrow> (- 1, w1\<lparr>errno := EISDIR\<rparr>)
      | Some Reg \<Rightarrow> (0, w1\<lparr>files := filter (\<lambda>e. fst e \<noteq> p) (files w)\<rparr>))"

definition posix_rmdir :: "path \<Rightarrow> world \<Rightarrow> int \<times> world" where
  "posix_rmdir p w =
     (let w1 = w\<lparr>syslog := syslog w @ [sys_rmdir p]\<rparr> in
      case map_of (files w) p of
        None \<Rightarrow> (- 1, w1\<lparr>errno := ENOENT\<rparr>)
      | Some Reg \<Rightarrow> (- 1, w1\<lparr>errno := ENOTDIR\<rparr>)
      | Some Dir \<Rightarrow>
          if list_ex (\<lambda>e. fst e \<noteq> [] \<and> parent_path (fst e) = p) (files w) then (- 1, w1\<lparr>errno := ENOTEMPTY\<rparr>)
          else (0, w1\<lparr>files := filter (\<lambda>e. fst e \<noteq> p) (files w)\<rparr>))"

text \<open>\<^verbatim>\<open>preadv\<close> and \<^verbatim>\<open>pwritev\<close> transfer the buffers' total length on an open descriptor.\<close>

definition preadv :: "int \<Rightarrow> nat list \<Rightarrow> int \<Rightarrow> world \<Rightarrow> int \<times> world" where
  "preadv d bufs off w =
     (let w1 = w\<lparr>syslog := syslog w @ [sys_preadv d off]\<rparr> in
      if open_fds w d = None then (- 1, w1\<lparr>errno := EBADF\<rparr>) else (int (sum_list bufs), w1))"

definition pwritev :: "int \<Rightarrow> nat list \<Rightarrow> int \<Rightarrow> world \<Rightarrow> int \<times> world" where
  "pwritev d bufs off w =
     (let w1 = w\<lparr>syslog := syslog w @ [sys_pwritev d off]\<rparr> in
      if open_fds w d = None then (- 1, w1\<lparr>errno := EBADF\<rparr>) else (int (sum_list bufs), w1))"

text \<open>The cast \<^verbatim>\<open>(int)\<close> of an \<^verbatim>\<open>ssize_t\<close>: the low 32 bits, read as signed.\<close>

definition int_cast :: "int \<Rightarrow> int" where
  "int_cast v = sint (word_of_int v :: 32 word)"

text \<open>
  Modelled from the spec: the macro \<^verbatim>\<open>ERRHOSFN\<close> of the absent
  \<^verbatim>\<open>ErrorHandling.hpp\<close>, which turns a negative return value of a system call into an
  exception carrying \<^verbatim>\<open>errno\<close> and the path (the spec's platform code "preserved as an
  attached cause").
\<close>

definition ERRHOSFN :: "int \<Rightarrow> path \<Rightarrow> world \<Rightarrow> unit res" where
  "ERRHOSFN v p w = (if v < 0 then Inl (Threw (os_error (errno w) p)) else Inr ())"

section \<open>Handles and the POSIX primitives\<close>

text \<open>
  Modelled from the spec: the base class \<^verbatim>\<open>async_io_handle\<close> is declared in the absent
  header. Its two counters start at zero, and \<^verbatim>\<open>write_count_since_fsync()\<close> is the
  number of bytes written since the last fsync.
\<close>

definition write_count_since_fsync :: "async_io_handle_posix \<Rightarrow> size_t" where
  "write_count_since_fsync p = byteswritten p - byteswrittenatlastfsync p"

text \<open>The constructor of \<^verbatim>\<open>async_io_handle_posix\<close>; the result is the new address.\<close>

definition new_async_io_handle_posix :: "path \<Rightarrow> bool \<Rightarrow> int \<Rightarrow> world \<Rightarrow> nat res \<times> world" where
  "new_async_io_handle_posix p af d w =
     (case (if d \<noteq> - 999 then ERRHOSFN d p w else Inr ()) of
        Inl f \<Rightarrow> (Inl f, w)
      | Inr _ \<Rightarrow>
          (Inr (length (handles w)),
           w\<lparr>handles := handles w @
              [\<lparr>h_path = p, fd = d, has_been_added = False, autoflush = af,
                has_ever_been_fsynced = False, byteswritten = 0,
                byteswrittenatlastfsync = 0\<rparr>]\<rparr>))"

text \<open>\<^verbatim>\<open>do_add_io_handle_to_parent\<close>, with \<^verbatim>\<open>int_add_io_handle\<close>: \<^verbatim>\<open>insert\<close> keeps an
  entry that is already there.\<close>

definition do_add_io_handle_to_parent :: "nat \<Rightarrow> world \<Rightarrow> world" where
  "do_add_io_handle_to_parent a w =
     (let p = handles w ! a in
      w\<lparr>fds := (if fds w (fd p) = None then (fds w)(fd p \<mapsto> a) else fds w),
        handles := (handles w)[a := p\<lparr>has_been_added := True\<rparr>]\<rparr>)"

definition deref :: "hptr \<Rightarrow> world \<Rightarrow> (nat \<times> async_io_handle_posix) option" where
  "deref hp w =
     (case hp of
        None \<Rightarrow> None
      | Some a \<Rightarrow> if a < length (handles w) then Some (a, handles w ! a) else None)"

definition fileflags :: "world \<Rightarrow> file_flags \<Rightarrow> file_flags" where
  "fileflags w flags = (flags \<inter> - flagsmask w) \<union> flagsforce w"

text \<open>
  \<^verbatim>\<open>dofile\<close>, with the computation of the flags for \<^verbatim>\<open>open\<close> first.
  \<^verbatim>\<open>O_RDONLY\<close> is zero, so or-ing it in changes nothing for \<^verbatim>\<open>open\<close>. The
  branch for \<^verbatim>\<open>OSSync\<close> is under \<^verbatim>\<open>#ifdef OS_SYNC\<close>, a macro nothing defines, and is
  not compiled.
\<close>

definition dofile_flags :: "file_flags \<Rightarrow> oflag set" where
  "dofile_flags rf =
     (let fl0 = (if Read \<in> rf \<and> Write \<in> rf then {O_RDWR}
                 else if Read \<in> rf then {O_RDONLY}
                 else if Write \<in> rf then {O_WRONLY} else {});
          fl1 = (if Append \<in> rf then insert O_APPEND fl0 else fl0);
          fl2 = (if Truncate \<in> rf then insert O_TRUNC fl1 else fl1);
          fl3 = (if CreateOnlyIfNotExist \<in> rf then fl2 \<union> {O_EXCL, O_CREAT}
                 else if Create \<in> rf then insert O_CREAT fl2 else fl2)
      in if OSDirect \<in> rf then insert O_DIRECT fl3 else fl3)"

definition dofile :: "size_t \<Rightarrow> hptr \<Rightarrow> async_path_op_req \<Rightarrow> world \<Rightarrow> (bool \<times> hptr) res \<times> world" where
  "dofile i h_unused req w =
     (let rf = fileflags w (p_flags req);
          (d, w1) = posix_open (p_path req) (dofile_flags rf) w
      in case new_async_io_handle_posix (p_path req) (AutoFlush \<in> rf \<and> Write \<in> rf) d w1 of
           (Inl f, w2) \<Rightarrow> (Inl f, w2)
         | (Inr a, w2) \<Rightarrow> (Inr (True, Some a), do_add_io_handle_to_parent a w2))"

text \<open>
  \<^verbatim>\<open>dodir\<close>. The variable \<open>ret\<close> holds the result of \<^verbatim>\<open>mkdir\<close>, is reset to 0 when an
  existing directory is to be ignored, and is then overwritten by the result of
  \<^verbatim>\<open>stat\<close> without having been tested: \<open>ret1\<close> below is never read.
\<close>

definition dodir :: "size_t \<Rightarrow> hptr \<Rightarrow> async_path_op_req \<Rightarrow> world \<Rightarrow> (bool \<times> hptr) res \<times> world" where
  "dodir i h_unused req w =
     (let rf = fileflags w (p_flags req);
          (rf1, w1) =
            (if Create \<in> rf then
               (let (ret, wa) = posix_mkdir (p_path req) w;
                    ret1 = (if ret = - 1 \<and> errno wa = EEXIST
                            then (if CreateOnlyIfNotExist \<notin> rf then 0 else ret) else ret)
                in (rf \<inter> - {Create, CreateOnlyIfNotExist}, wa))
             else (rf, w));
          ((ret, isdir), w2) = posix_stat (p_path req) w1
      in if ret = 0 \<and> \<not> isdir then (Inl (Threw (runtime_error ''Not a directory'')), w2)
         else if Read \<in> rf1 then
           (case dofile i h_unused (req\<lparr>p_flags := rf1\<rparr>) w2 of
              (Inl f, w3) \<Rightarrow> (Inl f, w3)
            | (Inr (b, hp), w3) \<Rightarrow>
                (case deref hp w3 of
                   None \<Rightarrow> (Inl Undefined, w3)
                 | Some (a, p) \<Rightarrow>
                     (Inr (b, hp), w3\<lparr>handles := (handles w3)[a := p\<lparr>byteswritten := 1\<rparr>]\<rparr>)))
         else
           (case new_async_io_handle_posix (p_path req) False (- 999) w2 of
              (Inl f, w3) \<Rightarrow> (Inl f, w3)
            | (Inr a, w3) \<Rightarrow> (Inr (True, Some a), w3)))"

definition dormdir :: "size_t \<Rightarrow> hptr \<Rightarrow> async_path_op_req \<Rightarrow> world \<Rightarrow> (bool \<times> hptr) res \<times> world" where
  "dormdir i h_unused req w =
     (let (r, w1) = posix_rmdir (p_path req) w in
      case ERRHOSFN r (p_path req) w1 of
        Inl f \<Rightarrow> (Inl f, w1)
      | Inr _ \<Rightarrow>
          (case new_async_io_handle_posix (p_path req) False (- 999) w1 of
             (Inl f, w2) \<Rightarrow> (Inl f, w2)
           | (Inr a, w2) \<Rightarrow> (Inr (True, Some a), w2)))"

definition dormfile :: "size_t \<Rightarrow> hptr \<Rightarrow> async_path_op_req \<Rightarrow> world \<Rightarrow> (bool \<times> hptr) res \<times> world" where
  "dormfile i h_unused req w =
     (let (r, w1) = posix_unlink (p_path req) w in
      case ERRHOSFN r (p_path req) w1 of
        Inl f \<Rightarrow> (Inl f, w1)
      | Inr _ \<Rightarrow>
          (case new_async_io_handle_posix (p_path req) False (- 999) w1 of
             (Inl f, w2) \<Rightarrow> (Inl f, w2)
           | (Inr a, w2) \<Rightarrow> (Inr (True, Some a), w2)))"

text \<open>The flush of \<^verbatim>\<open>dosync\<close> and \<^verbatim>\<open>doclose\<close>: \<^verbatim>\<open>ERRHOSFN(posix_fsync(p->fd), p->path())\<close>.\<close>

definition fsync_checked :: "async_io_handle_posix \<Rightarrow> world \<Rightarrow> unit res \<times> world" where
  "fsync_checked p w = (let (r, w1) = posix_fsync (fd p) w in (ERRHOSFN r (h_path p) w1, w1))"

definition dosync :: "size_t \<Rightarrow> hptr \<Rightarrow> async_io_op \<Rightarrow> world \<Rightarrow> (bool \<times> hptr) res \<times> world" where
  "dosync i hp op_unused w =
     (case deref hp w of
        None \<Rightarrow> (Inl Undefined, w)
      | Some (a, p) \<Rightarrow>
          (let bytestobesynced = write_count_since_fsync p in
           case (if bytestobesynced \<noteq> 0 then fsync_checked p w else (Inr (), w)) of
             (Inl f, w1) \<Rightarrow> (Inl f, w1)
           | (Inr _, w1) \<Rightarrow>
               (Inr (True, hp),
                w1\<lparr>handles := (handles w1)
                  [a := p\<lparr>has_ever_been_fsynced := True,
                          byteswrittenatlastfsync := byteswrittenatlastfsync p + bytestobesynced\<rparr>]\<rparr>)))"

text \<open>
  The steps of \<^verbatim>\<open>dosync\<close>. The routine runs in a worker thread with no lock held on the
  handle, so the steps of two syncs of one handle may interleave: the reading of the count,
  the flush, and the addition of the count that was read to \<^verbatim>\<open>byteswrittenatlastfsync\<close>.
\<close>

definition dosync_count :: "hptr \<Rightarrow> world \<Rightarrow> size_t option" where
  "dosync_count hp w =
     (case deref hp w of None \<Rightarrow> None | Some (a, p) \<Rightarrow> Some (write_count_since_fsync p))"

definition dosync_store :: "nat \<Rightarrow> size_t \<Rightarrow> world \<Rightarrow> world" where
  "dosync_store a bytestobesynced w =
     w\<lparr>handles := (handles w)
        [a := (handles w ! a)\<lparr>has_ever_been_fsynced := True,
               byteswrittenatlastfsync :=
                 byteswrittenatlastfsync (handles w ! a) + bytestobesynced\<rparr>]\<rparr>"

definition doclose :: "size_t \<Rightarrow> hptr \<Rightarrow> async_io_op \<Rightarrow> world \<Rightarrow> (bool \<times> hptr) res \<times> world" where
  "doclose i hp op_unused w =
     (case deref hp w of
        None \<Rightarrow> (Inl Undefined, w)
      | Some (a, p) \<Rightarrow>
          (case (if autoflush p \<and> write_count_since_fsync p \<noteq> 0 then fsync_checked p w
                 else (Inr (), w)) of
             (Inl f, w1) \<Rightarrow> (Inl f, w1)
           | (Inr _, w1) \<Rightarrow>
               (let (r, w2) = posix_close (fd p) w1 in
                case ERRHOSFN r (h_path p) w2 of
                  Inl f \<Rightarrow> (Inl f, w2)
                | Inr _ \<Rightarrow> (Inr (True, hp), w2\<lparr>handles := (handles w2)[a := p\<lparr>fd := - 1\<rparr>]\<rparr>))))"

text \<open>\<^verbatim>\<open>doread\<close> and \<^verbatim>\<open>dowrite\<close>: \<^verbatim>\<open>&vecs.front()\<close> of no buffers is undefined. Neither
  touches the counters of the handle.\<close>

definition doread :: "size_t \<Rightarrow> hptr \<Rightarrow> async_data_op_req \<Rightarrow> world \<Rightarrow> (bool \<times> hptr) res \<times> world" where
  "doread i hp req w =
     (case deref hp w of
        None \<Rightarrow> (Inl Undefined, w)
      | Some (a, p) \<Rightarrow>
          if d_buffers req = [] then (Inl Undefined, w)
          else
            (let (r, w1) = preadv (fd p) (d_buffers req) (d_where req) w in
             case ERRHOSFN (int_cast r) (h_path p) w1 of
               Inl f \<Rightarrow> (Inl f, w1)
             | Inr _ \<Rightarrow> (Inr (True, hp), w1)))"

definition dowrite :: "size_t \<Rightarrow> hptr \<Rightarrow> async_data_op_req \<Rightarrow> world \<Rightarrow> (bool \<times> hptr) res \<times> world" where
  "dowrite i hp req w =
     (case deref hp w of
        None \<Rightarrow> (Inl Undefined, w)
      | Some (a, p) \<Rightarrow>
          if d_buffers req = [] then (Inl Undefined, w)
          else
            (let (r, w1) = pwritev (fd p) (d_buffers req) (d_where req) w in
             case ERRHOSFN (int_cast r) (h_path p) w1 of
               Inl f \<Rightarrow> (Inl f, w1)
             | Inr _ \<Rightarrow> (Inr (True, hp), w1)))"

definition invoke_user_completion ::
  "size_t \<Rightarrow> hptr \<Rightarrow> (size_t \<Rightarrow> hptr \<Rightarrow> exn + (bool \<times> hptr)) \<Rightarrow> world \<Rightarrow> (bool \<times> hptr) res \<times> world" where
  "invoke_user_completion i hp callback w =
     (case callback i hp of Inl e \<Rightarrow> (Inl (Threw e), w) | Inr r \<Rightarrow> (Inr r, w))"

text \<open>The call \<^verbatim>\<open>(static_cast<F *>(this)->*f)(id, h, args...)\<close> of a bound routine.\<close>

fun call_prim :: "prim \<Rightarrow> size_t \<Rightarrow> hptr \<Rightarrow> world \<Rightarrow> (bool \<times> hptr) res \<times> world" where
  "call_prim (F_dodir req) i hp w = dodir i hp req w"
| "call_prim (F_dormdir req) i hp w = dormdir i hp req w"
| "call_prim (F_dofile req) i hp w = dofile i hp req w"
| "call_prim (F_dormfile req) i hp w = dormfile i hp req w"
| "call_prim (F_dosync op) i hp w = dosync i hp op w"
| "call_prim (F_doclose op) i hp w = doclose i hp op w"
| "call_prim (F_doread req) i hp w = doread i hp req w"
| "call_prim (F_dowrite req) i hp w = dowrite i hp req w"
| "call_prim (F_invoke_user_completion cb) i hp w = invoke_user_completion i hp cb w"

section \<open>The dispatcher core\<close>

text \<open>The allocation \<^verbatim>\<open>while(!(thisid=++p->monotoniccount));\<close> on a 64-bit counter.\<close>

function alloc_id :: "size_t \<Rightarrow> size_t" where
  "alloc_id c = (let c' = c + 1 in if c' = 0 then alloc_id c' else c')"
  by pat_completeness auto
termination
  by (relation "measure (\<lambda>c. if c + 1 = 0 then 1 else 0)") auto

declare alloc_id.simps [simp del]

text \<open>
  Modelled from the spec: the class \<^verbatim>\<open>thread_pool\<close> is in the absent header. Its
  \<^verbatim>\<open>enqueue(task)\<close> queues the task and returns the future of its result; a worker that
  runs the task stores the result, or the exception the task threw, in that future.
\<close>

definition enqueue :: "size_t \<Rightarrow> prim \<Rightarrow> hptr \<Rightarrow> world \<Rightarrow> future \<times> world" where
  "enqueue i f hp w =
     (Some (length (futures w)),
      w\<lparr>pool := pool w @ [\<lparr>t_cell = length (futures w), t_id = i, t_prim = f, t_h = hp\<rparr>],
        futures := futures w @ [Pending]\<rparr>)"

definition new_promise :: "world \<Rightarrow> nat \<times> world" where
  "new_promise w = (length (futures w), w\<lparr>futures := futures w @ [Pending]\<rparr>)"

text \<open>\<^verbatim>\<open>get()\<close> on a shared future, by a caller that holds \<^verbatim>\<open>opslock\<close>.\<close>

definition future_get :: "future \<Rightarrow> world \<Rightarrow> hptr res" where
  "future_get fu w =
     (case fu of
        None \<Rightarrow> Inl (Threw future_uninitialized)
      | Some c \<Rightarrow>
          if c < length (futures w) then
            (case futures w ! c of
               Pending \<Rightarrow> Inl Blocked
             | Ready v \<Rightarrow> Inr v
             | Failed e \<Rightarrow> Inl (Threw e))
          else Inl Undefined)"

text \<open>
  The library calls of \<^verbatim>\<open>chain_async_op\<close> that allocate can throw; which of them does,
  if any, is an argument of the model.
\<close>

datatype fault = NoFault | EnqueueThrows | InsertThrows | PromiseThrows

text \<open>
  Modelled from the spec: \<^verbatim>\<open>NiallsCPP11Utilities::Undoer\<close> is absent; it is a scoped undo
  action, run when the scope is left by an exception and dismissed on success. \<open>undep\<close>
  and \<open>unopsit\<close> are the bodies of the two lambdas.
\<close>

definition undep :: "bool \<Rightarrow> async_io_op \<Rightarrow> world \<Rightarrow> world" where
  "undep done precondition w =
     (if done then
        (case ops w (op_id precondition) of
           None \<Rightarrow> w
         | Some dep \<Rightarrow>
             w\<lparr>ops := (ops w)(op_id precondition \<mapsto> dep\<lparr>completions := butlast (completions dep)\<rparr>)\<rparr>)
      else w)"

definition unopsit :: "size_t \<Rightarrow> world \<Rightarrow> world" where
  "unopsit thisid w = w\<lparr>ops := (ops w)(thisid := None), dbg := dbg w @ [ev_ER thisid]\<rparr>"

text \<open>The branch \<^verbatim>\<open>if(!done)\<close>: bind the input handle and queue at once.\<close>

definition queue_now :: "async_io_op \<Rightarrow> size_t \<Rightarrow> prim \<Rightarrow> fault \<Rightarrow> world \<Rightarrow> future res \<times> world" where
  "queue_now precondition thisid f flt w =
     (case (if op_h precondition \<noteq> None then future_get (op_h precondition) w else Inr None) of
        Inl x \<Rightarrow> (Inl x, w)
      | Inr hp \<Rightarrow>
          if flt = EnqueueThrows then (Inl (Threw bad_alloc), w)
          else (let (fu, w1) = enqueue thisid f hp w in (Inr fu, w1)))"

definition chain_async_op ::
  "OpType \<Rightarrow> async_io_op \<Rightarrow> bool \<Rightarrow> prim \<Rightarrow> fault \<Rightarrow> world \<Rightarrow> async_io_op res \<times> world" where
  "chain_async_op ot precondition detachedfuture f flt w =
     (let thisid = alloc_id (monotoniccount w);
          w0 = w\<lparr>monotoniccount := thisid\<rparr>;
          dep = (if op_id precondition \<noteq> 0 then ops w0 (op_id precondition) else None);
          done = (dep \<noteq> None);
          w1 = (case dep of
                  None \<Rightarrow> w0
                | Some d \<Rightarrow>
                    w0\<lparr>ops := (ops w0)(op_id precondition \<mapsto>
                           d\<lparr>completions := completions d @ [(thisid, f)]\<rparr>)\<rparr>)
      in case (if done then (Inr None, w1) else queue_now precondition thisid f flt w1) of
           (Inl x, w2) \<Rightarrow> (Inl x, undep done precondition w2)
         | (Inr reth, w2) \<Rightarrow>
             if flt = InsertThrows then (Inl (Threw bad_alloc), undep done precondition w2)
             else if ops w2 thisid \<noteq> None then (Inl Terminated, w2)
             else
               (let w3 = w2\<lparr>ops := (ops w2)(thisid \<mapsto>
                              \<lparr>optype = ot, h_fut = reth, detached_promise = None,
                               completions = []\<rparr>),
                            dbg := dbg w2 @ [ev_I thisid]\<rparr>
                in if detachedfuture then
                     (if flt = PromiseThrows
                      then (Inl (Threw bad_alloc), undep done precondition (unopsit thisid w3))
                      else
                        (let (c, w4) = new_promise w3 in
                         (Inr \<lparr>op_id = thisid, op_h = reth\<rparr>,
                          w4\<lparr>ops := (ops w4)(thisid \<mapsto>
                                \<lparr>optype = ot, h_fut = (if done then reth else Some c),
                                 detached_promise = Some c, completions = []\<rparr>)\<rparr>)))
                   else (Inr \<lparr>op_id = thisid, op_h = reth\<rparr>, w3)))"

abbreviation op_not_found :: string where
  "op_not_found \<equiv> ''Failed to find this operation in list of currently executing operations''"

abbreviation completion_not_found :: string where
  "completion_not_found \<equiv>
     ''Failed to find this completion operation in list of currently executing operations''"

text \<open>The loop of \<^verbatim>\<open>complete_async_op\<close> over the completions moved out of the record.\<close>

fun enqueue_completions :: "(size_t \<times> prim) list \<Rightarrow> hptr \<Rightarrow> world \<Rightarrow> unit res \<times> world" where
  "enqueue_completions [] hp w = (Inr (), w)"
| "enqueue_completions (c # cs) hp w =
     (case ops w (fst c) of
        None \<Rightarrow> (Inl (Threw (runtime_error completion_not_found)), w)
      | Some r \<Rightarrow>
          (let (fu, w1) = enqueue (fst c) (snd c) hp w;
               w2 = w1\<lparr>ops := (ops w1)(fst c \<mapsto>
                          r\<lparr>h_fut := (case detached_promise r of Some pc \<Rightarrow> Some pc | None \<Rightarrow> fu)\<rparr>),
                        dbg := dbg w1 @ [ev_C (fst c)]\<rparr>
           in enqueue_completions cs hp w2))"

text \<open>The end of \<^verbatim>\<open>complete_async_op\<close>: fulfil the detached promise, erase the record.\<close>

definition finish_async_op ::
  "size_t \<Rightarrow> async_file_io_dispatcher_op \<Rightarrow> hptr \<Rightarrow> exn option \<Rightarrow> world \<Rightarrow> world" where
  "finish_async_op i r hp e w =
     (let w1 = (case detached_promise r of
                  None \<Rightarrow> w
                | Some c \<Rightarrow>
                    w\<lparr>futures := (futures w)
                        [c := (case e of Some x \<Rightarrow> Failed x | None \<Rightarrow> Ready hp)]\<rparr>)
      in w1\<lparr>ops := (ops w1)(i := None), dbg := dbg w1 @ [ev_R i]\<rparr>)"

definition complete_async_op :: "size_t \<Rightarrow> hptr \<Rightarrow> exn option \<Rightarrow> world \<Rightarrow> unit res \<times> world" where
  "complete_async_op i hp e w =
     (case ops w i of
        None \<Rightarrow> (Inl (Threw (runtime_error op_not_found)), w)
      | Some r \<Rightarrow>
          if completions r \<noteq> [] then
            (case enqueue_completions (completions r) hp
                    (w\<lparr>ops := (ops w)(i \<mapsto> r\<lparr>completions := []\<rparr>)\<rparr>) of
               (Inl x, w1) \<Rightarrow> (Inl x, w1)
             | (Inr _, w1) \<Rightarrow>
                 (case ops w1 i of
                    None \<Rightarrow> (Inl (Threw (runtime_error op_not_found)), w1)
                  | Some r1 \<Rightarrow> (Inr (), finish_async_op i r1 hp e w1)))
          else (Inr (), finish_async_op i r hp e w))"

text \<open>The \<^verbatim>\<open>try\<close> block of \<^verbatim>\<open>invoke_async_op_completions\<close>, and its \<^verbatim>\<open>catch(...)\<close>.\<close>

definition invoke_try :: "size_t \<Rightarrow> hptr \<Rightarrow> prim \<Rightarrow> world \<Rightarrow> hptr res \<times> world" where
  "invoke_try i hp f w =
     (case call_prim f i hp w of
        (Inl x, w1) \<Rightarrow> (Inl x, w1)
      | (Inr (done_now, h2), w1) \<Rightarrow>
          if done_now then
            (case complete_async_op i h2 None w1 of
               (Inl x, w2) \<Rightarrow> (Inl x, w2)
             | (Inr _, w2) \<Rightarrow> (Inr h2, w2))
          else
            (case ops w1 i of
               None \<Rightarrow> (Inl (Threw (runtime_error op_not_found)), w1)
             | Some r \<Rightarrow>
                 if detached_promise r = None then (Inl Terminated, w1) else (Inr h2, w1)))"

definition invoke_catch :: "size_t \<Rightarrow> hptr \<Rightarrow> exn \<Rightarrow> world \<Rightarrow> hptr res \<times> world" where
  "invoke_catch i hp e w =
     (case complete_async_op i hp (Some e) w of
        (Inl x, w1) \<Rightarrow> (Inl x, w1)
      | (Inr _, w1) \<Rightarrow> (Inl (Threw e), w1))"

definition invoke_async_op_completions :: "size_t \<Rightarrow> hptr \<Rightarrow> prim \<Rightarrow> world \<Rightarrow> hptr res \<times> world" where
  "invoke_async_op_completions i hp f w =
     (case invoke_try i hp f w of
        (Inl (Threw e), w1) \<Rightarrow> invoke_catch i hp e w1
      | (Inl x, w1) \<Rightarrow> (Inl x, w1)
      | (Inr v, w1) \<Rightarrow> (Inr v, w1))"

text \<open>
  A worker takes the \<open>k\<close>-th queued task and runs it to its end; the task's future then
  holds its result or its exception. With no such task nothing happens. One task is run
  at a time: the overlap of two primitives on one handle, which run with no lock held, is
  not in this function (for \<^verbatim>\<open>dosync\<close> it is in \<open>dosync_count\<close> and \<open>dosync_store\<close>).
\<close>

definition run_task :: "nat \<Rightarrow> world \<Rightarrow> unit res \<times> world" where
  "run_task k w =
     (if k < length (pool w) then
        (let t = pool w ! k;
             w1 = w\<lparr>pool := take k (pool w) @ drop (Suc k) (pool w)\<rparr>
         in case invoke_async_op_completions (t_id t) (t_h t) (t_prim t) w1 of
              (Inr v, w2) \<Rightarrow> (Inr (), w2\<lparr>futures := (futures w2)[t_cell t := Ready v]\<rparr>)
            | (Inl (Threw e), w2) \<Rightarrow> (Inr (), w2\<lparr>futures := (futures w2)[t_cell t := Failed e]\<rparr>)
            | (Inl x, w2) \<Rightarrow> (Inl x, w2))
      else (Inr (), w))"

section \<open>The entry points\<close>

text \<open>The loop \<^verbatim>\<open>for(auto &i : container) ret.push_back(chain_async_op(...))\<close>; an
  exception ends it.\<close>

fun chain_loop ::
  "('a \<Rightarrow> world \<Rightarrow> async_io_op res \<times> world) \<Rightarrow> 'a list \<Rightarrow> async_io_op list \<Rightarrow> world
     \<Rightarrow> async_io_op list res \<times> world" where
  "chain_loop g [] ret w = (Inr ret, w)"
| "chain_loop g (i # rest) ret w =
     (case g i w of
        (Inl x, w1) \<Rightarrow> (Inl x, w1)
      | (Inr r, w1) \<Rightarrow> chain_loop g rest (ret @ [r]) w1)"

text \<open>The three overloads of \<^verbatim>\<open>chain_async_ops\<close>; \<open>f i\<close> is the routine bound to \<open>i\<close>.\<close>

definition chain_async_ops ::
  "OpType \<Rightarrow> async_io_op list \<Rightarrow> bool \<Rightarrow> (async_io_op \<Rightarrow> prim) \<Rightarrow> world
     \<Rightarrow> async_io_op list res \<times> world" where
  "chain_async_ops ot container detachedfuture f w =
     chain_loop (\<lambda>i. chain_async_op ot i detachedfuture (f i) NoFault) container [] w"

definition chain_async_ops_path ::
  "OpType \<Rightarrow> async_path_op_req list \<Rightarrow> bool \<Rightarrow> (async_path_op_req \<Rightarrow> prim) \<Rightarrow> world
     \<Rightarrow> async_io_op list res \<times> world" where
  "chain_async_ops_path ot container detachedfuture f w =
     chain_loop (\<lambda>i. chain_async_op ot (p_precondition i) detachedfuture (f i) NoFault)
       container [] w"

definition chain_async_ops_data ::
  "OpType \<Rightarrow> async_data_op_req list \<Rightarrow> bool \<Rightarrow> (async_data_op_req \<Rightarrow> prim) \<Rightarrow> world
     \<Rightarrow> async_io_op list res \<times> world" where
  "chain_async_ops_data ot container detachedfuture f w =
     chain_loop (\<lambda>i. chain_async_op ot (d_precondition i) detachedfuture (f i) NoFault)
       container [] w"

definition dir :: "async_path_op_req list \<Rightarrow> world \<Rightarrow> async_io_op list res \<times> world" where
  "dir reqs w = chain_async_ops_path Op_dir reqs False F_dodir w"

definition rmdir :: "async_path_op_req list \<Rightarrow> world \<Rightarrow> async_io_op list res \<times> world" where
  "rmdir reqs w = chain_async_ops_path Op_rmdir reqs False F_dormdir w"

text \<open>\<^verbatim>\<open>file\<close> (a keyword of Isabelle, hence the suffix).\<close>

definition file_entry :: "async_path_op_req list \<Rightarrow> world \<Rightarrow> async_io_op list res \<times> world" where
  "file_entry reqs w = chain_async_ops_path Op_file reqs False F_dofile w"

definition rmfile :: "async_path_op_req list \<Rightarrow> world \<Rightarrow> async_io_op list res \<times> world" where
  "rmfile reqs w = chain_async_ops_path Op_rmfile reqs False F_dormfile w"

definition sync :: "async_io_op list \<Rightarrow> world \<Rightarrow> async_io_op list res \<times> world" where
  "sync reqs w = chain_async_ops Op_sync reqs False F_dosync w"

text \<open>\<^verbatim>\<open>read\<close> and \<^verbatim>\<open>write\<close> (the latter a keyword of Isabelle, hence the suffixes).\<close>

definition read_entry :: "async_data_op_req list \<Rightarrow> world \<Rightarrow> async_io_op list res \<times> world" where
  "read_entry reqs w = chain_async_ops_data Op_read reqs False F_doread w"

definition write_entry :: "async_data_op_req list \<Rightarrow> world \<Rightarrow> async_io_op list res \<times> world" where
  "write_entry reqs w = chain_async_ops_data Op_write reqs False F_dowrite w"

text \<open>
  The body of the loop of \<^verbatim>\<open>async_file_io_dispatcher_compat::close\<close>. The part under
  \<^verbatim>\<open>#ifdef __linux__\<close> is compiled when \<open>linux\<close> holds. Its three calls of
  \<^verbatim>\<open>chain_async_op\<close> pass no \<^verbatim>\<open>optype\<close>; the kind they record is taken as Unknown.
\<close>

definition close_body :: "bool \<Rightarrow> async_io_op \<Rightarrow> world \<Rightarrow> async_io_op res \<times> world" where
  "close_body linux i w =
     (case chain_async_op Op_close i False (F_doclose i) NoFault w of
        (Inl x, w1) \<Rightarrow> (Inl x, w1)
      | (Inr cl, w1) \<Rightarrow>
          if \<not> linux then (Inr cl, w1)
          else
            (case future_get (op_h i) w1 of
               Inl x \<Rightarrow> (Inl x, w1)
             | Inr hp \<Rightarrow>
                 (case deref hp w1 of
                    None \<Rightarrow> (Inl Undefined, w1)
                  | Some (a, p) \<Rightarrow>
                      if has_ever_been_fsynced p then
                        (let containingdir =
                               \<lparr>p_precondition = cl, p_path = parent_path (h_path p),
                                p_flags = {Read}\<rparr>
                         in case chain_async_op OpUnknown (p_precondition containingdir) False
                                   (F_dofile containingdir) NoFault w1 of
                              (Inl x, w2) \<Rightarrow> (Inl x, w2)
                            | (Inr diropenop, w2) \<Rightarrow>
                                (case chain_async_op OpUnknown diropenop False
                                        (F_dosync diropenop) NoFault w2 of
                                   (Inl x, w3) \<Rightarrow> (Inl x, w3)
                                 | (Inr syncdirop, w3) \<Rightarrow>
                                     chain_async_op OpUnknown syncdirop False
                                       (F_doclose syncdirop) NoFault w3))
                      else (Inr cl, w1))))"

definition close :: "bool \<Rightarrow> async_io_op list \<Rightarrow> world \<Rightarrow> async_io_op list res \<times> world" where
  "close linux reqs w = chain_loop (close_body linux) reqs [] w"

text \<open>\<^verbatim>\<open>completion\<close>: the loop advances both iterators and stops when either ends.\<close>

fun completion_loop ::
  "async_io_op list \<Rightarrow> (bool \<times> (size_t \<Rightarrow> hptr \<Rightarrow> exn + (bool \<times> hptr))) list
     \<Rightarrow> async_io_op list \<Rightarrow> world \<Rightarrow> async_io_op list res \<times> world" where
  "completion_loop (i # rest) (c # crest) ret w =
     (case chain_async_op OpUserCompletion i (fst c) (F_invoke_user_completion (snd c))
             NoFault w of
        (Inl x, w1) \<Rightarrow> (Inl x, w1)
      | (Inr r, w1) \<Rightarrow> completion_loop rest crest (ret @ [r]) w1)"
| "completion_loop [] crest ret w = (Inr ret, w)"
| "completion_loop rest [] ret w = (Inr ret, w)"

definition completion ::
  "async_io_op list \<Rightarrow> (bool \<times> (size_t \<Rightarrow> hptr \<Rightarrow> exn + (bool \<times> hptr))) list \<Rightarrow> world
     \<Rightarrow> async_io_op list res \<times> world" where
  "completion reqs callbacks w = completion_loop reqs callbacks [] w"

section \<open>\<^verbatim>\<open>file_handle::random_file\<close> and \<^verbatim>\<open>file_handle::temp_file\<close>\<close>

text \<open>
  \<^verbatim>\<open>include/boost/afio/v2.0/file_handle.hpp\<close>. The functions \<^verbatim>\<open>file\<close>,
  \<^verbatim>\<open>utils::random_string\<close> and \<^verbatim>\<open>fixme_temporary_files_directory\<close> are only declared
  there, so they are arguments: \<open>random_string\<close> draws a name from a generator state,
  \<open>file_fn\<close> acts on a file-system state and returns a \<^verbatim>\<open>result<file_handle>\<close>, an error
  code (\<open>Inl\<close>) or a handle. The types of mode, caching and flags are left open; of
  \<^verbatim>\<open>creation\<close> the header names two values.
\<close>

datatype creation = open_existing | only_if_not_exist | creation_other

text \<open>One turn of the \<^verbatim>\<open>do\<close> loop up to the assignment of \<^verbatim>\<open>ret\<close>.\<close>

definition random_file_attempt ::
  "(nat \<Rightarrow> 'g \<Rightarrow> string \<times> 'g) \<Rightarrow> (path \<Rightarrow> 'm \<Rightarrow> creation \<Rightarrow> 'c \<Rightarrow> 'f \<Rightarrow> 's \<Rightarrow> (int + 'h) \<times> 's)
     \<Rightarrow> path \<Rightarrow> 'm \<Rightarrow> 'c \<Rightarrow> 'f \<Rightarrow> 'g \<times> 's \<Rightarrow> (int + 'h) \<times> ('g \<times> 's)" where
  "random_file_attempt random_string file_fn dirpath md ca fl st =
     (let (randomname, g1) = random_string 32 (fst st);
          (ret, s1) = file_fn (dirpath @ [randomname]) md only_if_not_exist ca fl (snd st)
      in (ret, (g1, s1)))"

text \<open>The loop may run for ever; \<open>None\<close> is not returning.\<close>

partial_function (option) random_file ::
  "(nat \<Rightarrow> 'g \<Rightarrow> string \<times> 'g) \<Rightarrow> (path \<Rightarrow> 'm \<Rightarrow> creation \<Rightarrow> 'c \<Rightarrow> 'f \<Rightarrow> 's \<Rightarrow> (int + 'h) \<times> 's)
     \<Rightarrow> path \<Rightarrow> 'm \<Rightarrow> 'c \<Rightarrow> 'f \<Rightarrow> 'g \<times> 's \<Rightarrow> ((int + 'h) \<times> ('g \<times> 's)) option" where
  "random_file random_string file_fn dirpath md ca fl st =
     (case random_file_attempt random_string file_fn dirpath md ca fl st of
        (ret, st1) \<Rightarrow>
          if isl ret \<and> projl ret \<noteq> EEXIST then Some (ret, st1)
          else if isl ret then random_file random_string file_fn dirpath md ca fl st1
          else Some (ret, st1))"

definition temp_file ::
  "(nat \<Rightarrow> 'g \<Rightarrow> string \<times> 'g) \<Rightarrow> (path \<Rightarrow> 'm \<Rightarrow> creation \<Rightarrow> 'c \<Rightarrow> 'f \<Rightarrow> 's \<Rightarrow> (int + 'h) \<times> 's)
     \<Rightarrow> path \<Rightarrow> path \<Rightarrow> 'm \<Rightarrow> creation \<Rightarrow> 'c \<Rightarrow> 'f \<Rightarrow> 'g \<times> 's \<Rightarrow> ((int + 'h) \<times> ('g \<times> 's)) option" where
  "temp_file random_string file_fn fixme_temporary_files_directory name md cr ca fl st =
     (if name = [] then
        random_file random_string file_fn fixme_temporary_files_directory md ca fl st
      else
        (case file_fn (fixme_temporary_files_directory @ name) md cr ca fl (snd st) of
           (ret, s1) \<Rightarrow> Some (ret, (fst st, s1))))"

section \<open>\<^verbatim>\<open>dosync\<close> of the Windows backend\<close>

text \<open>
  \<^verbatim>\<open>async_file_io_dispatcher_windows::dosync\<close> on its own state: the store of Windows
  handles, the table of open \<^verbatim>\<open>HANDLE\<close>s, the last error and the log of calls. On
  Windows \<^verbatim>\<open>long\<close> has 32 bits, so the cast \<^verbatim>\<open>(long) bytestobesynced\<close> keeps the low 32
  bits and extends their sign.
\<close>

record async_io_handle_windows =
  wh_path :: path
  wh_h :: "int option"
  wh_autoflush :: bool
  wh_byteswritten :: size_t
  wh_byteswrittenatlastfsync :: size_t

datatype wincall = call_FlushFileBuffers int

record win_world =
  win_handles :: "async_io_handle_windows list"
  win_open :: "int \<rightharpoonup> path"
  win_last_error :: int
  win_log :: "wincall list"

definition FlushFileBuffers :: "int \<Rightarrow> win_world \<Rightarrow> bool \<times> win_world" where
  "FlushFileBuffers nh ww =
     (let w1 = ww\<lparr>win_log := win_log ww @ [call_FlushFileBuffers nh]\<rparr> in
      if win_open ww nh = None then (False, w1\<lparr>win_last_error := 6\<rparr>) else (True, w1))"

text \<open>
  Modelled from the spec: the macro \<^verbatim>\<open>ERRHWINFN\<close> of the absent \<^verbatim>\<open>ErrorHandling.hpp\<close>,
  which turns a false \<^verbatim>\<open>BOOL\<close> into an exception carrying the last error and the path.
\<close>

definition ERRHWINFN :: "bool \<Rightarrow> path \<Rightarrow> win_world \<Rightarrow> unit res" where
  "ERRHWINFN b p ww = (if \<not> b then Inl (Threw (os_error (win_last_error ww) p)) else Inr ())"

definition win_write_count_since_fsync :: "async_io_handle_windows \<Rightarrow> size_t" where
  "win_write_count_since_fsync p = wh_byteswritten p - wh_byteswrittenatlastfsync p"

definition long_cast :: "size_t \<Rightarrow> size_t" where
  "long_cast n = scast (ucast n :: 32 word)"

definition dosync_windows :: "size_t \<Rightarrow> hptr \<Rightarrow> async_io_op \<Rightarrow> win_world \<Rightarrow> (bool \<times> hptr) res \<times> win_world" where
  "dosync_windows i hp op_unused ww =
     (case hp of
        None \<Rightarrow> (Inl Undefined, ww)
      | Some a \<Rightarrow>
          if \<not> a < length (win_handles ww) then (Inl Undefined, ww)
          else
            (let p = win_handles ww ! a;
                 bytestobesynced = win_write_count_since_fsync p
             in case (if bytestobesynced \<noteq> 0 then
                        (case wh_h p of
                           None \<Rightarrow> (Inl Undefined, ww)
                         | Some nh \<Rightarrow>
                             (let (b, w1) = FlushFileBuffers nh ww in (ERRHWINFN b (wh_path p) w1, w1)))
                      else (Inr (), ww)) of
                  (Inl f, w1) \<Rightarrow> (Inl f, w1)
                | (Inr _, w1) \<Rightarrow>
                    (Inr (True, hp),
                     w1\<lparr>win_handles := (win_handles w1)
                       [a := p\<lparr>wh_byteswrittenatlastfsync :=
                                 wh_byteswrittenatlastfsync p + long_cast bytestobesynced\<rparr>]\<rparr>)))"

section \<open>Predicates and sample states\<close>

text \<open>The dispatcher's part of the state, and all of it but the operating system.\<close>

definition disp_part ::
  "world \<Rightarrow> file_flags \<times> file_flags \<times> size_t \<times> (size_t \<rightharpoonup> async_file_io_dispatcher_op)
     \<times> task list \<times> fut_state list \<times> event list" where
  "disp_part w = (flagsforce w, flagsmask w, monotoniccount w, ops w, pool w, futures w, dbg w)"

definition core_part where
  "core_part w = (disp_part w, fds w, handles w)"

text \<open>The invariant of a handle's two counters, and of every handle in the store.\<close>

definition handle_inv :: "async_io_handle_posix \<Rightarrow> bool" where
  "handle_inv p \<longleftrightarrow> byteswrittenatlastfsync p \<le> byteswritten p"

definition handles_inv :: "world \<Rightarrow> bool" where
  "handles_inv w \<longleftrightarrow> list_all handle_inv (handles w)"

text \<open>A dispatcher just made, with no forced or masked flags, over a file system that has
  only the root directory.\<close>

definition world0 :: world where
  "world0 =
     \<lparr>flagsforce = {}, flagsmask = {}, fds = Map.empty, monotoniccount = 0, ops = Map.empty,
      pool = [], futures = [], handles = [], files = [([], Dir)], open_fds = Map.empty,
      next_fd = 3, errno = 0, syslog = [], dbg = []\<rparr>"

text \<open>The state of \<open>random_file\<close> after \<open>n\<close> turns of its loop.\<close>

fun retry_state ::
  "(nat \<Rightarrow> 'g \<Rightarrow> string \<times> 'g) \<Rightarrow> (path \<Rightarrow> 'm \<Rightarrow> creation \<Rightarrow> 'c \<Rightarrow> 'f \<Rightarrow> 's \<Rightarrow> (int + 'h) \<times> 's)
     \<Rightarrow> path \<Rightarrow> 'm \<Rightarrow> 'c \<Rightarrow> 'f \<Rightarrow> nat \<Rightarrow> 'g \<times> 's \<Rightarrow> 'g \<times> 's" where
  "retry_state random_string file_fn dirpath md ca fl 0 st = st"
| "retry_state random_string file_fn dirpath md ca fl (Suc n) st =
     retry_state random_string file_fn dirpath md ca fl n
       (snd (random_file_attempt random_string file_fn dirpath md ca fl st))"

text \<open>
  An instance of the absent functions for running \<open>random_file\<close> and \<open>temp_file\<close>: the
  generator counts its draws, the first name is all \<open>a\<close> and the later ones all \<open>b\<close>; the
  file system is the list of the paths that exist.
\<close>

definition sample_random_string :: "nat \<Rightarrow> nat \<Rightarrow> string \<times> nat" where
  "sample_random_string n g = (replicate n (if g = 0 then CHR ''a'' else CHR ''b''), Suc g)"

definition sample_file ::
  "path \<Rightarrow> unit \<Rightarrow> creation \<Rightarrow> unit \<Rightarrow> unit \<Rightarrow> path list \<Rightarrow> (int + path) \<times> path list" where
  "sample_file p md cr ca fl s =
     (if p \<in> set s then (if cr = only_if_not_exist then (Inl EEXIST, s) else (Inr p, s))
      else if cr = open_existing then (Inl ENOENT, s)
      else (Inr p, p # s))"

text \<open>Everything the dispatcher's own functions leave alone: the handles and the
  operating system.\<close>

definition env_part where
  "env_part w = (fds w, handles w, files w, open_fds w, next_fd w, errno w, syslog w)"

text \<open>A state with one open handle on which five bytes were written, two of them before
  the last fsync; and a Windows state with one open handle and nothing written.\<close>

definition world_dirty :: world where
  "world_dirty = world0\<lparr>handles :=
      [\<lparr>h_path = [''t'', ''a''], fd = 3, has_been_added = True, autoflush = False,
        has_ever_been_fsynced = False, byteswritten = 5, byteswrittenatlastfsync = 2\<rparr>],
     open_fds := [3 \<mapsto> [''t'', ''a'']], next_fd := 4\<rparr>"


text \<open>A state with the handle of a directory, as \<^verbatim>\<open>dodir\<close> leaves it: one byte counts as
  written. A Windows state with one open handle on which \<open>2^31\<close> bytes were written and
  none synced, and one on which five bytes were written and none synced.\<close>

definition world_dirhandle :: world where
  "world_dirhandle = world0\<lparr>handles :=
      [\<lparr>h_path = [], fd = 3, has_been_added = True, autoflush = False,
        has_ever_been_fsynced = False, byteswritten = 1, byteswrittenatlastfsync = 0\<rparr>],
     open_fds := [3 \<mapsto> []], next_fd := 4\<rparr>"

definition win_world_big :: win_world where
  "win_world_big =
     \<lparr>win_handles = [\<lparr>wh_path = [''t'', ''a''], wh_h = Some 7, wh_autoflush = False,
         wh_byteswritten = 2147483648, wh_byteswrittenatlastfsync = 0\<rparr>],
      win_open = [7 \<mapsto> [''t'', ''a'']], win_last_error = 0, win_log = []\<rparr>"

definition win_world_dirty :: win_world where
  "win_world_dirty =
     \<lparr>win_handles = [\<lparr>wh_path = [''t'', ''a''], wh_h = Some 7, wh_autoflush = False,
         wh_byteswritten = 5, wh_byteswrittenatlastfsync = 0\<rparr>],
      win_open = [7 \<mapsto> [''t'', ''a'']], win_last_error = 0, win_log = []\<rparr>"

text \<open>The counter of a dispatcher after \<open>n\<close> allocations, which is the \<open>n\<close>-th id it issued;
  a dispatcher whose counter has reached the greatest value; the operation reference of
  no operation.\<close>

definition issued :: "nat \<Rightarrow> size_t" where
  "issued n = (alloc_id ^^ n) 0"

definition world_wrapped :: world where
  "world_wrapped = world0\<lparr>monotoniccount := - 1\<rparr>"

definition no_op :: async_io_op where
  "no_op = \<lparr>op_id = 0, op_h = None\<rparr>"

text \<open>A state whose pool holds a sync task for an id that is not in the registry; and a
  dispatcher with one operation in flight, the opening of a file.\<close>

definition world_orphan :: world where
  "world_orphan = world_dirty\<lparr>pool := [\<lparr>t_cell = 0, t_id = 7, t_prim = F_dosync no_op, t_h = Some 0\<rparr>],
      futures := [Pending]\<rparr>"

definition world_inflight :: world where
  "world_inflight = world0\<lparr>monotoniccount := 1,
      ops := [1 \<mapsto> \<lparr>optype = Op_file, h_fut = Some 0, detached_promise = None, completions = []\<rparr>],
      pool := [\<lparr>t_cell = 0, t_id = 1,
                t_prim = F_dofile \<lparr>p_precondition = no_op, p_path = [''a''], p_flags = {Create, Write}\<rparr>,
                t_h = None\<rparr>],
      futures := [Pending], dbg := [ev_I 1]\<rparr>"

text \<open>A file system in which the directory \<open>t\<close> exists, and a request to create it
  exclusively.\<close>

definition world_t :: world where
  "world_t = world0\<lparr>files := [([''t''], Dir), ([], Dir)]\<rparr>"

definition mk_t :: async_path_op_req where
  "mk_t = \<lparr>p_precondition = no_op, p_path = [''t''], p_flags = {Create, CreateOnlyIfNotExist}\<rparr>"

text \<open>A user callback that completes at once with the handle it is given.\<close>

definition sample_callback :: "size_t \<Rightarrow> hptr \<Rightarrow> exn + (bool \<times> hptr)" where
  "sample_callback i hp = Inr (True, hp)"

text \<open>The references of a batch are in the order of the batch: the \<open>k\<close>-th one is the
  reference \<open>g\<close> returned for the \<open>k\<close>-th input, in the state the first \<open>k\<close> inputs left.\<close>

definition batch_in_order ::
  "('a \<Rightarrow> world \<Rightarrow> async_io_op res \<times> world) \<Rightarrow> 'a list \<Rightarrow> world \<Rightarrow> async_io_op list \<Rightarrow> bool" where
  "batch_in_order g xs w refs \<longleftrightarrow>
     length refs = length xs \<and>
     (\<forall>k<length xs. \<exists>wk wk'.
        chain_loop g (take k xs) [] w = (Inr (take k refs), wk) \<and>
        g (xs ! k) wk = (Inr (refs ! k), wk'))"



text \<open>The ids of the queued tasks, and the ids on the completion list of a record and of
  the record of an id.\<close>

definition pool_ids :: "world \<Rightarrow> size_t set" where
  "pool_ids w = t_id ` set (pool w)"

definition child_ids :: "async_file_io_dispatcher_op \<Rightarrow> size_t set" where
  "child_ids rc = fst ` set (completions rc)"

definition children_of :: "world \<Rightarrow> size_t \<Rightarrow> size_t set" where
  "children_of w j = (case ops w j of None \<Rightarrow> {} | Some rc \<Rightarrow> child_ids rc)"

text \<open>The id \<open>b\<close> is named by no queued task and by no completion list. Every id that
  a queued task or a completion list names is in the registry.\<close>

definition unnamed :: "size_t \<Rightarrow> world \<Rightarrow> bool" where
  "unnamed b w \<longleftrightarrow> b \<notin> pool_ids w \<and> (\<forall>y. b \<notin> children_of w y)"

definition refs_registered :: "world \<Rightarrow> bool" where
  "refs_registered w \<longleftrightarrow> pool_ids w \<subseteq> dom (ops w) \<and> (\<forall>y. children_of w y \<subseteq> dom (ops w))"


text \<open>
  What the task of the operation \<open>j\<close> may do to the registry, the queue and the trace: it
  logs only the queueing of children and its own removal, a completion list is left as
  it was or emptied, no record but its own is erased, and only its own children are queued.
\<close>

definition task_effect :: "size_t \<Rightarrow> world \<Rightarrow> world \<Rightarrow> bool" where
  "task_effect j w w1 \<longleftrightarrow>
     (\<exists>evs. dbg w1 = dbg w @ evs \<and> set evs \<subseteq> insert (ev_R j) (range ev_C)) \<and>
     (\<forall>y rc1. ops w1 y = Some rc1 \<longrightarrow>
        (\<exists>rc. ops w y = Some rc \<and> (completions rc1 = [] \<or> completions rc1 = completions rc))) \<and>
     (\<forall>y. y \<noteq> j \<longrightarrow> ops w y \<noteq> None \<longrightarrow> ops w1 y \<noteq> None) \<and>
     pool_ids w1 \<subseteq> pool_ids w \<union> children_of w j"






section \<open>\<open>random_file\<close> and \<open>temp_file\<close>: proofs\<close>

lemma random_file_returns:
  "(\<forall>k<n. fst (random_file_attempt rs ff d m c f (retry_state rs ff d m c f k st)) = Inl EEXIST)
   \<Longrightarrow> fst (random_file_attempt rs ff d m c f (retry_state rs ff d m c f n st)) \<noteq> Inl EEXIST
   \<Longrightarrow> random_file rs ff d m c f st
       = Some (random_file_attempt rs ff d m c f (retry_state rs ff d m c f n st))"
proof (induction n arbitrary: st)
  case 0
  then show ?case
    by (subst random_file.simps) (auto split: prod.splits simp: isl_def)
next
  case (Suc n)
  from Suc.prems(1) have first: "fst (random_file_attempt rs ff d m c f st) = Inl EEXIST"
    by (metis retry_state.simps(1) zero_less_Suc)
  have rest: "\<forall>k<n. fst (random_file_attempt rs ff d m c f
       (retry_state rs ff d m c f k (snd (random_file_attempt rs ff d m c f st)))) = Inl EEXIST"
    using Suc.prems(1) by (metis Suc_less_eq retry_state.simps(2))
  have "random_file rs ff d m c f (snd (random_file_attempt rs ff d m c f st))
     = Some (random_file_attempt rs ff d m c f
         (retry_state rs ff d m c f n (snd (random_file_attempt rs ff d m c f st))))"
    using Suc.IH [OF rest] Suc.prems(2) by simp
  then show ?case
    using first by (subst random_file.simps) (auto split: prod.splits)
qed

lemma random_file_sound:
  "random_file rs ff d m c f st = Some r
   \<Longrightarrow> fst r \<noteq> Inl EEXIST \<and>
       (\<exists>n. (\<forall>k<n. fst (random_file_attempt rs ff d m c f (retry_state rs ff d m c f k st)) = Inl EEXIST)
          \<and> random_file_attempt rs ff d m c f (retry_state rs ff d m c f n st) = r)"
proof (induction rule: random_file.raw_induct [rotated, consumes 1])
  case (1 rf rs ff d m c f st r)
  obtain ret st1 where att: "random_file_attempt rs ff d m c f st = (ret, st1)"
    by (cases "random_file_attempt rs ff d m c f st")
  show ?case
  proof (cases "ret = Inl EEXIST")
    case True
    with 1(2) att have "rf rs ff d m c f st1 = Some r" by simp
    from 1(1) [OF this] obtain n where
      ne: "fst r \<noteq> Inl EEXIST" and
      pre: "\<forall>k<n. fst (random_file_attempt rs ff d m c f (retry_state rs ff d m c f k st1)) = Inl EEXIST" and
      fin: "random_file_attempt rs ff d m c f (retry_state rs ff d m c f n st1) = r"
      by blast
    have "\<forall>k<Suc n. fst (random_file_attempt rs ff d m c f (retry_state rs ff d m c f k st)) = Inl EEXIST"
    proof (intro allI impI)
      fix k assume "k < Suc n"
      then show "fst (random_file_attempt rs ff d m c f (retry_state rs ff d m c f k st)) = Inl EEXIST"
        using pre att True by (cases k) auto
    qed
    moreover have "random_file_attempt rs ff d m c f (retry_state rs ff d m c f (Suc n) st) = r"
      using fin att by simp
    ultimately show ?thesis using ne by blast
  next
    case False
    with 1(2) att have r: "r = (ret, st1)"
      by (cases ret) (auto split: if_splits)
    have "random_file_attempt rs ff d m c f (retry_state rs ff d m c f 0 st) = r"
      using att r by simp
    moreover have "fst r \<noteq> Inl EEXIST" using r False by simp
    ultimately show ?thesis by (metis not_less_zero)
  qed
qed

text \<open>
  C9. Every turn of the loop of \<open>random_file\<close> draws a new name of 32 characters and asks
  \<open>file\<close> for the path of that name under the directory with
  \<open>creation::only_if_not_exist\<close>. If \<open>random_file\<close> returns, what it returns is never the
  error \<open>EEXIST\<close>: it is the result of a turn before which every turn ended in \<open>EEXIST\<close>.
  And if the first \<open>n\<close> turns end in \<open>EEXIST\<close> and the next one does not, \<open>random_file\<close>
  does return, with the result of that turn: the first handle created, or the first
  error other than \<open>EEXIST\<close>.
\<close>

theorem random_file_retries_on_EEXIST:
  "random_file_attempt rs ff d m c f st =
     (fst (ff (d @ [fst (rs 32 (fst st))]) m only_if_not_exist c f (snd st)),
      snd (rs 32 (fst st)),
      snd (ff (d @ [fst (rs 32 (fst st))]) m only_if_not_exist c f (snd st)))
   \<and> (random_file rs ff d m c f st = Some r \<longrightarrow>
        fst r \<noteq> Inl EEXIST \<and>
        (\<exists>n. (\<forall>k<n. fst (random_file_attempt rs ff d m c f (retry_state rs ff d m c f k st))
                    = Inl EEXIST)
           \<and> random_file_attempt rs ff d m c f (retry_state rs ff d m c f n st) = r))
   \<and> ((\<forall>k<n. fst (random_file_attempt rs ff d m c f (retry_state rs ff d m c f k st)) = Inl EEXIST)
        \<and> fst (random_file_attempt rs ff d m c f (retry_state rs ff d m c f n st)) \<noteq> Inl EEXIST
      \<longrightarrow> random_file rs ff d m c f st
            = Some (random_file_attempt rs ff d m c f (retry_state rs ff d m c f n st)))"
proof (intro conjI impI)
  show "random_file_attempt rs ff d m c f st =
     (fst (ff (d @ [fst (rs 32 (fst st))]) m only_if_not_exist c f (snd st)),
      snd (rs 32 (fst st)),
      snd (ff (d @ [fst (rs 32 (fst st))]) m only_if_not_exist c f (snd st)))"
    by (simp add: random_file_attempt_def split: prod.splits)
next
  assume "random_file rs ff d m c f st = Some r"
  from random_file_sound [OF this]
  show "fst r \<noteq> Inl EEXIST"
    and "\<exists>n. (\<forall>k<n. fst (random_file_attempt rs ff d m c f (retry_state rs ff d m c f k st))
                    = Inl EEXIST)
           \<and> random_file_attempt rs ff d m c f (retry_state rs ff d m c f n st) = r"
    by blast+
next
  assume h: "(\<forall>k<n. fst (random_file_attempt rs ff d m c f (retry_state rs ff d m c f k st)) = Inl EEXIST)
        \<and> fst (random_file_attempt rs ff d m c f (retry_state rs ff d m c f n st)) \<noteq> Inl EEXIST"
  show "random_file rs ff d m c f st
            = Some (random_file_attempt rs ff d m c f (retry_state rs ff d m c f n st))"
    by (rule random_file_returns [OF conjunct1 [OF h] conjunct2 [OF h]])
qed

lemma sample_attempt_0:
  "random_file_attempt sample_random_string sample_file [''tmp''] () () ()
     (0, [[''tmp'', replicate 32 (CHR ''a'')]])
   = (Inl EEXIST, (Suc 0, [[''tmp'', replicate 32 (CHR ''a'')]]))"
  by (simp add: random_file_attempt_def sample_random_string_def sample_file_def)

lemma sample_attempt_1:
  "random_file_attempt sample_random_string sample_file [''tmp''] () () ()
     (Suc 0, [[''tmp'', replicate 32 (CHR ''a'')]])
   = (Inr [''tmp'', replicate 32 (CHR ''b'')],
      (2, [[''tmp'', replicate 32 (CHR ''b'')], [''tmp'', replicate 32 (CHR ''a'')]]))"
  by (simp add: random_file_attempt_def sample_random_string_def sample_file_def)

theorem random_file_retries_on_EEXIST_witness:
  "random_file sample_random_string sample_file [''tmp''] () () ()
     (0, [[''tmp'', replicate 32 (CHR ''a'')]])
   = Some (Inr [''tmp'', replicate 32 (CHR ''b'')],
      (2, [[''tmp'', replicate 32 (CHR ''b'')], [''tmp'', replicate 32 (CHR ''a'')]]))
   \<and> Inr [''tmp'', replicate 32 (CHR ''b'')] \<noteq> (Inl EEXIST :: int + path)"
proof -
  have pre: "\<forall>k<Suc 0. fst (random_file_attempt sample_random_string sample_file [''tmp''] () () ()
      (retry_state sample_random_string sample_file [''tmp''] () () () k
         (0, [[''tmp'', replicate 32 (CHR ''a'')]]))) = Inl EEXIST"
    by (simp add: sample_attempt_0)
  have last: "fst (random_file_attempt sample_random_string sample_file [''tmp''] () () ()
      (retry_state sample_random_string sample_file [''tmp''] () () () (Suc 0)
         (0, [[''tmp'', replicate 32 (CHR ''a'')]]))) \<noteq> Inl EEXIST"
    by (simp add: sample_attempt_0 sample_attempt_1)
  from random_file_retries_on_EEXIST [of sample_random_string sample_file "[''tmp'']" "()" "()" "()"
      "(0, [[''tmp'', replicate 32 (CHR ''a'')]])" undefined "Suc 0", THEN conjunct2, THEN conjunct2]
    pre last
  show ?thesis
    by (simp add: sample_attempt_0 sample_attempt_1)
qed

text \<open>
  C10. With an empty name \<open>temp_file\<close> is \<open>random_file\<close> on the directory for temporary
  files with the same mode, caching and flags, whatever the creation argument; with a
  name it is \<open>file\<close> on that name under the directory, with all five arguments.
\<close>

theorem temp_file_dispatch:
  "temp_file rs ff tmp [] m cr c f st = random_file rs ff tmp m c f st
   \<and> temp_file rs ff tmp [] m cr c f st = temp_file rs ff tmp [] m cr' c f st
   \<and> (name \<noteq> [] \<longrightarrow>
        temp_file rs ff tmp name m cr c f st =
          Some (fst (ff (tmp @ name) m cr c f (snd st)),
                (fst st, snd (ff (tmp @ name) m cr c f (snd st)))))"
  by (simp add: temp_file_def split: prod.splits)

theorem temp_file_dispatch_witness:
  "[''x''] \<noteq> ([] :: path)
   \<and> temp_file sample_random_string sample_file [''tmp''] [''x''] () only_if_not_exist () ()
        (0, [[''tmp'', ''x'']])
      = Some (Inl EEXIST, (0, [[''tmp'', ''x'']]))
   \<and> temp_file sample_random_string sample_file [''tmp''] [''x''] () creation_other () ()
        (0, [[''tmp'', ''x'']])
      = Some (Inr [''tmp'', ''x''], (0, [[''tmp'', ''x'']]))"
  using temp_file_dispatch [of sample_random_string sample_file "[''tmp'']" "()" only_if_not_exist "()" "()"
      "(0, [[''tmp'', ''x'']])" only_if_not_exist "[''x'']"]
    temp_file_dispatch [of sample_random_string sample_file "[''tmp'']" "()" creation_other "()" "()"
      "(0, [[''tmp'', ''x'']])" creation_other "[''x'']"]
  by (simp add: sample_file_def)

section \<open>What each function leaves unchanged\<close>

lemma posix_mkdir_core: "posix_mkdir p w = (r, w1) \<Longrightarrow> core_part w1 = core_part w"
  by (auto simp: posix_mkdir_def core_part_def disp_part_def Let_def split: if_splits)

lemma posix_stat_core: "posix_stat p w = (r, w1) \<Longrightarrow> core_part w1 = core_part w"
  by (auto simp: posix_stat_def core_part_def disp_part_def Let_def split: option.splits)

lemma posix_open_core: "posix_open p fl w = (r, w1) \<Longrightarrow> core_part w1 = core_part w"
  by (auto simp: posix_open_def new_fd_def core_part_def disp_part_def Let_def
      split: option.splits if_splits)

lemma posix_fsync_core: "posix_fsync d w = (r, w1) \<Longrightarrow> core_part w1 = core_part w"
  by (auto simp: posix_fsync_def core_part_def disp_part_def Let_def split: if_splits)

lemma posix_close_core: "posix_close d w = (r, w1) \<Longrightarrow> core_part w1 = core_part w"
  by (auto simp: posix_close_def core_part_def disp_part_def Let_def split: if_splits)

lemma posix_unlink_core: "posix_unlink p w = (r, w1) \<Longrightarrow> core_part w1 = core_part w"
  by (auto simp: posix_unlink_def core_part_def disp_part_def Let_def
      split: option.splits inode.splits)

lemma posix_rmdir_core: "posix_rmdir p w = (r, w1) \<Longrightarrow> core_part w1 = core_part w"
  by (auto simp: posix_rmdir_def core_part_def disp_part_def Let_def
      split: option.splits inode.splits if_splits)

lemma preadv_core: "preadv d b off w = (r, w1) \<Longrightarrow> core_part w1 = core_part w"
  by (auto simp: preadv_def core_part_def disp_part_def Let_def split: if_splits)

lemma pwritev_core: "pwritev d b off w = (r, w1) \<Longrightarrow> core_part w1 = core_part w"
  by (auto simp: pwritev_def core_part_def disp_part_def Let_def split: if_splits)

lemma fsync_checked_core: "fsync_checked p w = (r, w1) \<Longrightarrow> core_part w1 = core_part w"
  by (auto simp: fsync_checked_def split: prod.splits dest: posix_fsync_core)

lemma core_partD:
  "core_part w1 = core_part w \<Longrightarrow> disp_part w1 = disp_part w \<and> handles w1 = handles w \<and> fds w1 = fds w"
  by (simp add: core_part_def)

lemma new_handle_Inr:
  "new_async_io_handle_posix p af d w = (Inr a, w1) \<Longrightarrow>
     a = length (handles w) \<and> disp_part w1 = disp_part w \<and>
     handles w1 = handles w @ [\<lparr>h_path = p, fd = d, has_been_added = False, autoflush = af,
                has_ever_been_fsynced = False, byteswritten = 0,
                byteswrittenatlastfsync = 0\<rparr>]"
  by (auto simp: new_async_io_handle_posix_def disp_part_def split: sum.splits if_splits)

lemma new_handle_Inl:
  "new_async_io_handle_posix p af d w = (Inl x, w1) \<Longrightarrow> w1 = w"
  by (auto simp: new_async_io_handle_posix_def split: sum.splits if_splits)

lemma do_add_disp: "disp_part (do_add_io_handle_to_parent a w) = disp_part w"
  by (simp add: do_add_io_handle_to_parent_def disp_part_def Let_def)

lemma handles_inv_update:
  "handles_inv w \<Longrightarrow> handle_inv p \<Longrightarrow> handles_inv (w\<lparr>handles := (handles w)[a := p]\<rparr>)"
  unfolding handles_inv_def list_all_iff
  by (auto dest: set_update_subset_insert [THEN subsetD])

lemma handles_inv_append:
  "handles_inv w \<Longrightarrow> handle_inv p \<Longrightarrow> handles w1 = handles w @ [p] \<Longrightarrow> handles_inv w1"
  unfolding handles_inv_def list_all_iff by auto

lemma handles_inv_cong: "handles w1 = handles w \<Longrightarrow> handles_inv w1 = handles_inv w"
  by (simp add: handles_inv_def)

lemma handles_inv_nth: "handles_inv w \<Longrightarrow> a < length (handles w) \<Longrightarrow> handle_inv (handles w ! a)"
  by (simp add: handles_inv_def list_all_length)

lemma do_add_inv: "handles_inv w \<Longrightarrow> handles_inv (do_add_io_handle_to_parent a w)"
proof -
  assume inv: "handles_inv w"
  show ?thesis
  proof (cases "a < length (handles w)")
    case True
    with inv have "handle_inv (handles w ! a)" by (rule handles_inv_nth)
    then have "handle_inv ((handles w ! a)\<lparr>has_been_added := True\<rparr>)"
      by (simp add: handle_inv_def)
    with inv show ?thesis
      unfolding do_add_io_handle_to_parent_def Let_def handles_inv_def list_all_iff
      by (auto dest: set_update_subset_insert [THEN subsetD])
  next
    case False
    with inv show ?thesis
      by (simp add: do_add_io_handle_to_parent_def Let_def handles_inv_def list_update_beyond)
  qed
qed

lemma new_handle_inv:
  "handles_inv w \<Longrightarrow> new_async_io_handle_posix p af d w = (r, w1) \<Longrightarrow> handles_inv w1"
  by (cases r) (auto dest!: new_handle_Inl new_handle_Inr simp: handles_inv_def handle_inv_def)

lemma new_handle_disp:
  "new_async_io_handle_posix p af d w = (r, w1) \<Longrightarrow> disp_part w1 = disp_part w"
  by (cases r) (auto dest!: new_handle_Inl new_handle_Inr)

lemma os_inv:
  "core_part w1 = core_part w \<Longrightarrow> handles_inv w1 = handles_inv w"
  by (simp add: core_part_def handles_inv_def)

lemma os_disp:
  "core_part w1 = core_part w \<Longrightarrow> disp_part w1 = disp_part w"
  by (simp add: core_part_def)

lemma dofile_disp: "dofile i hp req w = (r, w1) \<Longrightarrow> disp_part w1 = disp_part w"
  unfolding dofile_def Let_def
  by (auto split: prod.splits sum.splits
      dest!: posix_open_core os_disp new_handle_disp simp: do_add_disp)

lemma dofile_inv: "handles_inv w \<Longrightarrow> dofile i hp req w = (r, w1) \<Longrightarrow> handles_inv w1"
  unfolding dofile_def Let_def
  by (auto split: prod.splits sum.splits dest!: posix_open_core os_inv
      dest: new_handle_inv intro: do_add_inv)

lemma deref_Some: "deref hp w = Some (a, p) \<Longrightarrow> hp = Some a \<and> a < length (handles w) \<and> p = handles w ! a"
  by (auto simp: deref_def split: option.splits if_splits)

lemma upd_handles_disp [simp]: "disp_part (w\<lparr>handles := hs\<rparr>) = disp_part w"
  by (simp add: disp_part_def)

lemma dodir_disp: "dodir i hp req w = (r, w1) \<Longrightarrow> disp_part w1 = disp_part w"
  unfolding dodir_def Let_def
  by (auto split: prod.splits sum.splits option.splits if_splits
      dest!: posix_mkdir_core posix_stat_core os_disp new_handle_disp dofile_disp)

lemma dofile_fresh:
  "dofile i hp req w = (Inr (b, hq), w1) \<Longrightarrow>
     b \<and> hq = Some (length (handles w)) \<and> length (handles w1) = Suc (length (handles w)) \<and>
     take (length (handles w)) (handles w1) = handles w \<and>
     handles w1 ! length (handles w) =
       \<lparr>h_path = p_path req, fd = fd (handles w1 ! length (handles w)), has_been_added = True,
        autoflush = (AutoFlush \<in> fileflags w (p_flags req) \<and> Write \<in> fileflags w (p_flags req)),
        has_ever_been_fsynced = False, byteswritten = 0, byteswrittenatlastfsync = 0\<rparr>"
  unfolding dofile_def Let_def
  by (auto split: prod.splits sum.splits dest!: posix_open_core core_partD new_handle_Inr
      simp: do_add_io_handle_to_parent_def Let_def)

lemma dofile_inv_fresh:
  "handles_inv w \<Longrightarrow> dofile i hp req w = (r, w1) \<Longrightarrow>
     handles_inv w1 \<and>
     (\<forall>b hq. r = Inr (b, hq) \<longrightarrow>
        (\<exists>a. hq = Some a \<and> a < length (handles w1) \<and> byteswrittenatlastfsync (handles w1 ! a) = 0))"
proof (intro conjI allI impI)
  assume "handles_inv w" "dofile i hp req w = (r, w1)"
  then show "handles_inv w1" by (rule dofile_inv)
next
  fix b hq
  assume "dofile i hp req w = (r, w1)" "r = Inr (b, hq)"
  then have *: "dofile i hp req w = (Inr (b, hq), w1)" by simp
  from dofile_fresh [OF *] have "hq = Some (length (handles w))"
    "length (handles w) < length (handles w1)"
    "byteswrittenatlastfsync (handles w1 ! length (handles w)) = 0"
    by (auto, metis async_io_handle_posix.select_convs(7))
  then show "\<exists>a. hq = Some a \<and> a < length (handles w1) \<and> byteswrittenatlastfsync (handles w1 ! a) = 0"
    by blast
qed

lemma dodir_inv: "handles_inv w \<Longrightarrow> dodir i hp req w = (r, w1) \<Longrightarrow> handles_inv w1"
  unfolding dodir_def Let_def
  by (auto split: prod.splits sum.splits option.splits if_splits
      dest!: posix_mkdir_core posix_stat_core os_inv deref_Some
      dest: new_handle_inv dofile_inv_fresh intro!: handles_inv_update simp: handle_inv_def)

lemma dormdir_disp: "dormdir i hp req w = (r, w1) \<Longrightarrow> disp_part w1 = disp_part w"
  unfolding dormdir_def Let_def
  by (auto split: prod.splits sum.splits dest!: posix_rmdir_core os_disp new_handle_disp)

lemma dormdir_inv: "handles_inv w \<Longrightarrow> dormdir i hp req w = (r, w1) \<Longrightarrow> handles_inv w1"
  unfolding dormdir_def Let_def
  by (auto split: prod.splits sum.splits dest!: posix_rmdir_core os_inv dest: new_handle_inv)

lemma dormfile_disp: "dormfile i hp req w = (r, w1) \<Longrightarrow> disp_part w1 = disp_part w"
  unfolding dormfile_def Let_def
  by (auto split: prod.splits sum.splits dest!: posix_unlink_core os_disp new_handle_disp)

lemma dormfile_inv: "handles_inv w \<Longrightarrow> dormfile i hp req w = (r, w1) \<Longrightarrow> handles_inv w1"
  unfolding dormfile_def Let_def
  by (auto split: prod.splits sum.splits dest!: posix_unlink_core os_inv dest: new_handle_inv)

lemma dosync_disp: "dosync i hp x w = (r, w1) \<Longrightarrow> disp_part w1 = disp_part w"
  unfolding dosync_def Let_def
  by (auto split: prod.splits sum.splits option.splits if_splits
      dest!: fsync_checked_core os_disp)

lemma dosync_inv: "handles_inv w \<Longrightarrow> dosync i hp x w = (r, w1) \<Longrightarrow> handles_inv w1"
  unfolding dosync_def Let_def
  by (auto split: prod.splits sum.splits option.splits if_splits
      dest!: fsync_checked_core os_inv intro!: handles_inv_update
      simp: handle_inv_def write_count_since_fsync_def)

lemma doclose_disp: "doclose i hp x w = (r, w1) \<Longrightarrow> disp_part w1 = disp_part w"
  unfolding doclose_def Let_def
  by (auto split: prod.splits sum.splits option.splits if_splits
      dest!: fsync_checked_core posix_close_core os_disp)

lemma doclose_inv: "handles_inv w \<Longrightarrow> doclose i hp x w = (r, w1) \<Longrightarrow> handles_inv w1"
  unfolding doclose_def Let_def
  by (auto split: prod.splits sum.splits option.splits if_splits
      dest!: fsync_checked_core posix_close_core os_inv deref_Some
      intro!: handles_inv_update dest: handles_inv_nth simp: handle_inv_def)

lemma doread_disp: "doread i hp x w = (r, w1) \<Longrightarrow> disp_part w1 = disp_part w"
  unfolding doread_def Let_def
  by (auto split: prod.splits sum.splits option.splits if_splits dest!: preadv_core os_disp)

lemma doread_inv: "handles_inv w \<Longrightarrow> doread i hp x w = (r, w1) \<Longrightarrow> handles_inv w1"
  unfolding doread_def Let_def
  by (auto split: prod.splits sum.splits option.splits if_splits dest!: preadv_core os_inv)

lemma dowrite_disp: "dowrite i hp x w = (r, w1) \<Longrightarrow> disp_part w1 = disp_part w"
  unfolding dowrite_def Let_def
  by (auto split: prod.splits sum.splits option.splits if_splits dest!: pwritev_core os_disp)

lemma dowrite_inv: "handles_inv w \<Longrightarrow> dowrite i hp x w = (r, w1) \<Longrightarrow> handles_inv w1"
  unfolding dowrite_def Let_def
  by (auto split: prod.splits sum.splits option.splits if_splits dest!: pwritev_core os_inv)

lemma user_same: "invoke_user_completion i hp cb w = (r, w1) \<Longrightarrow> w1 = w"
  by (auto simp: invoke_user_completion_def split: sum.splits)

lemma call_prim_disp: "call_prim f i hp w = (r, w1) \<Longrightarrow> disp_part w1 = disp_part w"
  by (cases f) (auto dest: dodir_disp dormdir_disp dofile_disp dormfile_disp dosync_disp
      doclose_disp doread_disp dowrite_disp user_same)

lemma call_prim_inv: "handles_inv w \<Longrightarrow> call_prim f i hp w = (r, w1) \<Longrightarrow> handles_inv w1"
  by (cases f) (auto dest: dodir_inv dormdir_inv dofile_inv dormfile_inv dosync_inv
      doclose_inv doread_inv dowrite_inv user_same)

lemma env_inv: "env_part w1 = env_part w \<Longrightarrow> handles_inv w1 = handles_inv w"
  by (simp add: env_part_def handles_inv_def)

lemma queue_now_env: "queue_now pre i f flt w = (r, w1) \<Longrightarrow> env_part w1 = env_part w"
  by (auto simp: queue_now_def enqueue_def env_part_def Let_def split: sum.splits if_splits)

lemma undep_env: "env_part (undep dn pre w) = env_part w"
  by (simp add: undep_def env_part_def split: option.splits)

lemma unopsit_env: "env_part (unopsit i w) = env_part w"
  by (simp add: unopsit_def env_part_def)

lemma chain_async_op_env:
  "chain_async_op ot pre det f flt w = (r, w1) \<Longrightarrow> env_part w1 = env_part w"
  unfolding chain_async_op_def Let_def
  by (auto split: prod.splits sum.splits option.splits if_splits
      dest!: queue_now_env simp: undep_env unopsit_env new_promise_def)
     (simp_all add: env_part_def)

lemma enqueue_completions_env:
  "enqueue_completions cs hp w = (r, w1) \<Longrightarrow> env_part w1 = env_part w"
  by (induction cs hp w rule: enqueue_completions.induct)
     (auto simp: enqueue_def Let_def env_part_def split: option.splits)

lemma finish_env: "env_part (finish_async_op i rc hp e w) = env_part w"
  by (simp add: finish_async_op_def env_part_def Let_def split: option.splits)

lemma complete_async_op_env:
  "complete_async_op i hp e w = (r, w1) \<Longrightarrow> env_part w1 = env_part w"
  unfolding complete_async_op_def
  by (auto split: prod.splits sum.splits option.splits if_splits
      dest!: enqueue_completions_env simp: finish_env)
     (simp_all add: env_part_def)

lemma invoke_catch_inv:
  "handles_inv w \<Longrightarrow> invoke_catch i hp e w = (r, w1) \<Longrightarrow> handles_inv w1"
  unfolding invoke_catch_def
  by (auto split: prod.splits sum.splits dest!: complete_async_op_env env_inv)

lemma invoke_try_inv:
  "handles_inv w \<Longrightarrow> invoke_try i hp f w = (r, w1) \<Longrightarrow> handles_inv w1"
  unfolding invoke_try_def
  by (auto split: prod.splits sum.splits option.splits if_splits
      dest!: complete_async_op_env env_inv dest: call_prim_inv)

lemma invoke_inv:
  "handles_inv w \<Longrightarrow> invoke_async_op_completions i hp f w = (r, w1) \<Longrightarrow> handles_inv w1"
  unfolding invoke_async_op_completions_def
  by (auto split: prod.splits sum.splits failure.splits dest: invoke_try_inv invoke_catch_inv)

lemma handles_inv_upd_other [simp]:
  "handles_inv (w\<lparr>pool := x\<rparr>) = handles_inv w"
  "handles_inv (w\<lparr>futures := y\<rparr>) = handles_inv w"
  by (simp_all add: handles_inv_def)

lemma run_task_inv:
  "handles_inv w \<Longrightarrow> run_task k w = (r, w1) \<Longrightarrow> handles_inv w1"
  unfolding run_task_def Let_def
  by (auto split: prod.splits sum.splits failure.splits if_splits dest!: invoke_inv [rotated])

lemma chain_loop_inv:
  assumes step: "\<And>i w r w1. P w \<Longrightarrow> g i w = (r, w1) \<Longrightarrow> P w1"
  shows "P w \<Longrightarrow> chain_loop g xs acc w = (r, w1) \<Longrightarrow> P w1"
proof (induction xs arbitrary: acc w)
  case Nil
  then show ?case by simp
next
  case (Cons x xs)
  obtain rx wx where gx: "g x w = (rx, wx)" by (meson surj_pair)
  with Cons.prems(1) have "P wx" by (rule step)
  with Cons gx show ?case by (cases rx) auto
qed

lemma chain_async_op_inv:
  "handles_inv w \<Longrightarrow> chain_async_op ot pre det f flt w = (r, w1) \<Longrightarrow> handles_inv w1"
  by (auto dest!: chain_async_op_env env_inv)

lemma close_body_inv:
  "handles_inv w \<Longrightarrow> close_body lx i w = (r, w1) \<Longrightarrow> handles_inv w1"
  unfolding close_body_def Let_def
  by (auto split: prod.splits sum.splits option.splits if_splits dest!: chain_async_op_env env_inv)

lemma completion_loop_inv:
  "handles_inv w \<Longrightarrow> completion_loop xs cs acc w = (r, w1) \<Longrightarrow> handles_inv w1"
  by (induction xs cs acc w rule: completion_loop.induct)
     (auto split: prod.splits sum.splits dest!: chain_async_op_env env_inv)

section \<open>The counters of a handle\<close>

lemma world_dirty_inv: "handles_inv world_dirty"
  by (simp add: world_dirty_def world0_def handles_inv_def handle_inv_def)

lemma world_dirty_deref:
  "deref (Some 0) world_dirty = Some (0, handles world_dirty ! 0)"
  by (simp add: deref_def world_dirty_def)

text \<open>\<^verbatim>\<open>dosync\<close> is its three steps, run one after the other.\<close>

lemma dosync_in_steps:
  "dosync i hp x w =
     (case dosync_count hp w of
        None \<Rightarrow> (Inl Undefined, w)
      | Some n \<Rightarrow>
          (case (if n \<noteq> 0 then fsync_checked (snd (the (deref hp w))) w else (Inr (), w)) of
             (Inl f, w1) \<Rightarrow> (Inl f, w1)
           | (Inr u, w1) \<Rightarrow> (Inr (True, hp), dosync_store (fst (the (deref hp w))) n w1)))"
proof (cases "deref hp w")
  case None
  then show ?thesis by (simp add: dosync_def dosync_count_def)
next
  case (Some ap)
  obtain a p where ap: "ap = (a, p)" by (cases ap)
  from Some ap have a: "a < length (handles w)" and p: "p = handles w ! a"
    by (auto dest: deref_Some)
  obtain u w2 where f: "fsync_checked p w = (u, w2)"
    by (meson surj_pair)
  then have h: "handles w2 = handles w"
    by (auto dest!: fsync_checked_core core_partD)
  have d: "deref hp w = Some (a, p)" using Some ap by simp
  have st: "dosync_store a n wx = wx\<lparr>handles := (handles wx)
        [a := p\<lparr>has_ever_been_fsynced := True,
               byteswrittenatlastfsync := byteswrittenatlastfsync p + n\<rparr>]\<rparr>"
    if "handles wx = handles w" for n wx
    using that p by (simp add: dosync_store_def)
  show ?thesis
  proof (cases "write_count_since_fsync p = 0")
    case True
    then show ?thesis
      using d st [of w] by (simp add: dosync_def dosync_count_def Let_def)
  next
    case False
    then show ?thesis
      using d f st [OF h] by (cases u) (simp_all add: dosync_def dosync_count_def Let_def)
  qed
qed

text \<open>Two syncs in a row of the Windows handle on which \<open>2^31\<close> bytes were written.\<close>

lemma win_first_sync:
  "dosync_windows 1 (Some 0) no_op win_world_big =
     (Inr (True, Some 0),
      win_world_big\<lparr>win_log := [call_FlushFileBuffers 7],
        win_handles := [\<lparr>wh_path = [''t'', ''a''], wh_h = Some 7, wh_autoflush = False,
         wh_byteswritten = 2147483648, wh_byteswrittenatlastfsync = 18446744071562067968\<rparr>]\<rparr>)"
  by (simp add: dosync_windows_def win_world_big_def win_write_count_since_fsync_def
      FlushFileBuffers_def ERRHWINFN_def long_cast_def Let_def)


text \<open>The cast \<^verbatim>\<open>(long)\<close> of Windows keeps a count below \<open>2^31\<close>.\<close>

lemma long_cast_small:
  assumes "n < 2147483648" shows "long_cast n = n"
proof -
  from assms have u: "uint n < 2 ^ 31" by (simp add: word_less_def)
  have a: "uint (ucast n :: 32 word) = uint n"
    using u by (simp add: unsigned_ucast_eq take_bit_int_eq_self)
  have "0 \<le> uint n" "(0::int) < 2 ^ 31" by simp_all
  then have l: "- (2 ^ 31) \<le> uint n" by linarith
  have s: "signed_take_bit 31 (uint n) = uint n"
    using l u by (rule signed_take_bit_int_eq_self)
  have "sint (ucast n :: 32 word) = uint n"
    using a s by (simp add: sint_uint)
  then have "(scast (ucast n :: 32 word) :: 64 word) = word_of_int (uint n)"
    by (simp add: scast_eq)
  then show ?thesis by (simp add: long_cast_def)
qed






lemma dosync_equalises:
  assumes d: "deref hp w = Some (a, p)" and run: "dosync i hp x w = (Inr v, w1)"
  shows "byteswrittenatlastfsync (handles w1 ! a) = byteswritten (handles w1 ! a)"
proof -
  from d have a: "a < length (handles w)" by (auto dest: deref_Some)
  obtain u w2 where f:
    "(if write_count_since_fsync p \<noteq> 0 then fsync_checked p w else (Inr (), w)) = (u, w2)"
    by (meson surj_pair)
  then have h: "handles w2 = handles w"
    by (auto split: if_splits dest!: fsync_checked_core core_partD)
  from run d f have "w1 = w2\<lparr>handles := (handles w2)
       [a := p\<lparr>has_ever_been_fsynced := True,
               byteswrittenatlastfsync := byteswrittenatlastfsync p + write_count_since_fsync p\<rparr>]\<rparr>"
    by (cases u) (auto simp: dosync_def Let_def)
  with a h show ?thesis
    by (simp add: write_count_since_fsync_def)
qed

lemma snd_holds: "(\<And>r w1. g = (r, w1) \<Longrightarrow> P w1) \<Longrightarrow> P (snd g)"
  by (cases g) simp

lemma dosync_windows_equalises:
  assumes b: "b < length (win_handles ww)"
    and small: "wh_byteswritten (win_handles ww ! b) - wh_byteswrittenatlastfsync (win_handles ww ! b)
                  < 2147483648"
    and run: "dosync_windows i (Some b) x ww = (Inr v, ww1)"
  shows "wh_byteswrittenatlastfsync (win_handles ww1 ! b) = wh_byteswritten (win_handles ww1 ! b)"
proof -
  from small have lc: "long_cast (win_write_count_since_fsync (win_handles ww ! b))
      = wh_byteswritten (win_handles ww ! b) - wh_byteswrittenatlastfsync (win_handles ww ! b)"
    by (simp add: win_write_count_since_fsync_def long_cast_small)
  from run b show ?thesis
    by (auto simp: dosync_windows_def Let_def FlushFileBuffers_def ERRHWINFN_def lc
        split: option.splits prod.splits sum.splits if_splits)
qed

text \<open>
  C8, as amended. In the POSIX backend, where a primitive runs to its end before another
  one touches the same handle: if \<open>byteswrittenatlastfsync \<le> byteswritten\<close> holds of every
  handle in the store, it holds again after any primitive run on any handle (write, sync,
  close and dir among them), after the completion of an operation, after a worker has
  run a task, and after any entry point has chained a batch; it holds of the store of a
  new dispatcher. A sync that succeeds leaves the two counters of its handle equal; in the
  Windows backend it does when fewer than \<open>2^31\<close> bytes were written since the last sync.
\<close>

theorem counters_invariant:
  "(handles_inv w \<longrightarrow>
     handles_inv (snd (dowrite i hp dreq w))
   \<and> handles_inv (snd (dosync i hp x w))
   \<and> handles_inv (snd (doclose i hp x w))
   \<and> handles_inv (snd (dodir i hp preq w))
   \<and> handles_inv (snd (call_prim f i hp w))
   \<and> handles_inv (snd (complete_async_op i hp e w))
   \<and> handles_inv (snd (run_task k w))
   \<and> handles_inv (snd (chain_async_op ot pre det f flt w))
   \<and> handles_inv (snd (dir preqs w)) \<and> handles_inv (snd (rmdir preqs w))
   \<and> handles_inv (snd (file_entry preqs w)) \<and> handles_inv (snd (rmfile preqs w))
   \<and> handles_inv (snd (sync reqs w)) \<and> handles_inv (snd (close lx reqs w))
   \<and> handles_inv (snd (read_entry dreqs w)) \<and> handles_inv (snd (write_entry dreqs w))
   \<and> handles_inv (snd (completion reqs cbs w)))
   \<and> (deref hp w = Some (a, p) \<and> dosync i hp x w = (Inr v, w1) \<longrightarrow>
        byteswrittenatlastfsync (handles w1 ! a) = byteswritten (handles w1 ! a))
   \<and> (b < length (win_handles ww) \<and>
        wh_byteswritten (win_handles ww ! b) - wh_byteswrittenatlastfsync (win_handles ww ! b)
          < 2147483648 \<and>
        dosync_windows i (Some b) x ww = (Inr v', ww1) \<longrightarrow>
        wh_byteswrittenatlastfsync (win_handles ww1 ! b) = wh_byteswritten (win_handles ww1 ! b))"
proof (intro impI conjI)
  assume "b < length (win_handles ww) \<and>
        wh_byteswritten (win_handles ww ! b) - wh_byteswrittenatlastfsync (win_handles ww ! b)
          < 2147483648 \<and>
        dosync_windows i (Some b) x ww = (Inr v', ww1)"
  then show "wh_byteswrittenatlastfsync (win_handles ww1 ! b) = wh_byteswritten (win_handles ww1 ! b)"
    using dosync_windows_equalises by blast
next
  assume "deref hp w = Some (a, p) \<and> dosync i hp x w = (Inr v, w1)"
  then show "byteswrittenatlastfsync (handles w1 ! a) = byteswritten (handles w1 ! a)"
    using dosync_equalises by blast
next
  assume inv: "handles_inv w"
  show "handles_inv (snd (dowrite i hp dreq w))"
    by (rule snd_holds) (rule dowrite_inv [OF inv])
  show "handles_inv (snd (dosync i hp x w))"
    by (rule snd_holds) (rule dosync_inv [OF inv])
  show "handles_inv (snd (doclose i hp x w))"
    by (rule snd_holds) (rule doclose_inv [OF inv])
  show "handles_inv (snd (dodir i hp preq w))"
    by (rule snd_holds) (rule dodir_inv [OF inv])
  show "handles_inv (snd (call_prim f i hp w))"
    by (rule snd_holds) (rule call_prim_inv [OF inv])
  show "handles_inv (snd (complete_async_op i hp e w))"
    by (rule snd_holds) (simp add: env_inv [OF complete_async_op_env] inv)
  show "handles_inv (snd (run_task k w))"
    by (rule snd_holds) (rule run_task_inv [OF inv])
  show "handles_inv (snd (chain_async_op ot pre det f flt w))"
    by (rule snd_holds) (rule chain_async_op_inv [OF inv])
  have path: "handles_inv (snd (chain_async_ops_path t preqs d g w))" for t d g
    unfolding chain_async_ops_path_def
    by (rule snd_holds) (rule chain_loop_inv [where P = handles_inv, OF chain_async_op_inv inv])
  have data: "handles_inv (snd (chain_async_ops_data t dreqs d g w))" for t d g
    unfolding chain_async_ops_data_def
    by (rule snd_holds) (rule chain_loop_inv [where P = handles_inv, OF chain_async_op_inv inv])
  show "handles_inv (snd (dir preqs w))" "handles_inv (snd (rmdir preqs w))"
    "handles_inv (snd (file_entry preqs w))" "handles_inv (snd (rmfile preqs w))"
    by (simp_all add: dir_def rmdir_def file_entry_def rmfile_def path)
  show "handles_inv (snd (read_entry dreqs w))" "handles_inv (snd (write_entry dreqs w))"
    by (simp_all add: read_entry_def write_entry_def data)
  show "handles_inv (snd (sync reqs w))"
    unfolding sync_def chain_async_ops_def
    by (rule snd_holds) (rule chain_loop_inv [where P = handles_inv, OF chain_async_op_inv inv])
  show "handles_inv (snd (close lx reqs w))"
    unfolding close_def
    by (rule snd_holds) (rule chain_loop_inv [where P = handles_inv, OF close_body_inv inv])
  show "handles_inv (snd (completion reqs cbs w))"
    unfolding completion_def
    by (rule snd_holds) (rule completion_loop_inv [OF inv])
qed

theorem counters_invariant_witness:
  "handles_inv world0
   \<and> handles_inv (snd (dodir 1 None \<lparr>p_precondition = \<lparr>op_id = 0, op_h = None\<rparr>, p_path = [],
          p_flags = {Read}\<rparr> world0))
   \<and> handles_inv world_dirty
   \<and> handles_inv (snd (dosync 1 (Some 0) \<lparr>op_id = 0, op_h = None\<rparr> world_dirty))
   \<and> handles_inv (snd (dowrite 1 (Some 0) \<lparr>d_precondition = \<lparr>op_id = 0, op_h = None\<rparr>,
          d_where = 0, d_buffers = [5]\<rparr> world_dirty))
   \<and> handles_inv (snd (doclose 1 (Some 0) \<lparr>op_id = 0, op_h = None\<rparr> world_dirty))
   \<and> fst (dosync 1 (Some 0) no_op world_dirty) = Inr (True, Some 0)
   \<and> byteswrittenatlastfsync (handles (snd (dosync 1 (Some 0) no_op world_dirty)) ! 0) = 5
   \<and> byteswritten (handles (snd (dosync 1 (Some 0) no_op world_dirty)) ! 0) = 5
   \<and> fst (dosync_windows 1 (Some 0) no_op win_world_dirty) = Inr (True, Some 0)
   \<and> wh_byteswrittenatlastfsync (win_handles (snd (dosync_windows 1 (Some 0) no_op win_world_dirty)) ! 0) = 5
   \<and> wh_byteswritten (win_handles (snd (dosync_windows 1 (Some 0) no_op win_world_dirty)) ! 0) = 5"
proof -
  have i0: "handles_inv world0"
    by (simp add: world0_def handles_inv_def)
  from counters_invariant [of world0 1 None _ _ "\<lparr>p_precondition = \<lparr>op_id = 0, op_h = None\<rparr>,
      p_path = [], p_flags = {Read}\<rparr>", THEN conjunct1] i0
  have "handles_inv (snd (dodir 1 None \<lparr>p_precondition = \<lparr>op_id = 0, op_h = None\<rparr>, p_path = [],
          p_flags = {Read}\<rparr> world0))"
    by blast
  moreover
  from counters_invariant [of world_dirty 1 "Some 0" "\<lparr>d_precondition = \<lparr>op_id = 0, op_h = None\<rparr>,
          d_where = 0, d_buffers = [5]\<rparr>" "\<lparr>op_id = 0, op_h = None\<rparr>", THEN conjunct1]
    world_dirty_inv
  have "handles_inv (snd (dosync 1 (Some 0) \<lparr>op_id = 0, op_h = None\<rparr> world_dirty))"
    "handles_inv (snd (dowrite 1 (Some 0) \<lparr>d_precondition = \<lparr>op_id = 0, op_h = None\<rparr>,
          d_where = 0, d_buffers = [5]\<rparr> world_dirty))"
    "handles_inv (snd (doclose 1 (Some 0) \<lparr>op_id = 0, op_h = None\<rparr> world_dirty))"
    by blast+
  moreover
  have r: "fst (dosync 1 (Some 0) no_op world_dirty) = Inr (True, Some 0)"
    "byteswritten (handles (snd (dosync 1 (Some 0) no_op world_dirty)) ! 0) = 5"
    by (simp_all add: dosync_def deref_def world_dirty_def world0_def write_count_since_fsync_def
        fsync_checked_def posix_fsync_def ERRHOSFN_def Let_def)
  then have r': "dosync 1 (Some 0) no_op world_dirty
      = (Inr (True, Some 0), snd (dosync 1 (Some 0) no_op world_dirty))"
    by (simp add: prod_eq_iff)
  from counters_invariant [where w = world_dirty and i = 1 and hp = "Some 0" and x = no_op
      and a = 0 and p = "handles world_dirty ! 0" and v = "(True, Some 0)"
      and ?w1.0 = "snd (dosync 1 (Some 0) no_op world_dirty)", THEN conjunct2, THEN conjunct1]
    world_dirty_deref r' r(2)
  have "byteswrittenatlastfsync (handles (snd (dosync 1 (Some 0) no_op world_dirty)) ! 0) = 5"
    by simp
  moreover note r
  moreover
  have q: "fst (dosync_windows 1 (Some 0) no_op win_world_dirty) = Inr (True, Some 0)"
    "wh_byteswritten (win_handles (snd (dosync_windows 1 (Some 0) no_op win_world_dirty)) ! 0) = 5"
    by (simp_all add: dosync_windows_def win_world_dirty_def win_write_count_since_fsync_def
        FlushFileBuffers_def ERRHWINFN_def Let_def)
  then have q': "dosync_windows 1 (Some 0) no_op win_world_dirty
      = (Inr (True, Some 0), snd (dosync_windows 1 (Some 0) no_op win_world_dirty))"
    by (simp add: prod_eq_iff)
  have s: "0 < length (win_handles win_world_dirty)"
    "wh_byteswritten (win_handles win_world_dirty ! 0)
       - wh_byteswrittenatlastfsync (win_handles win_world_dirty ! 0) < 2147483648"
    by (simp_all add: win_world_dirty_def)
  from counters_invariant [where i = 1 and x = no_op and b = 0 and ww = win_world_dirty
      and v' = "(True, Some 0)"
      and ?ww1.0 = "snd (dosync_windows 1 (Some 0) no_op win_world_dirty)",
      THEN conjunct2, THEN conjunct2] q' q(2) s
  have "wh_byteswrittenatlastfsync (win_handles (snd (dosync_windows 1 (Some 0) no_op win_world_dirty)) ! 0) = 5"
    by simp
  moreover note q
  ultimately show ?thesis using i0 world_dirty_inv by blast
qed

text \<open>
  C8 as stated fails. Two workers sync the handle of a directory, on which one byte
  counts as written, at the same time: each reads the count 1 before the other has
  added it, each flushes, each adds 1, and \<open>byteswrittenatlastfsync\<close> is 2 with
  \<open>byteswritten\<close> at 1. And on Windows a single sync of a handle on which \<open>2^31\<close> bytes were
  written leaves \<open>byteswrittenatlastfsync\<close> above \<open>byteswritten\<close>.
\<close>

theorem overlapping_syncs_break_the_counter_invariant:
  "handles_inv world_dirhandle
   \<and> dosync_count (Some 0) world_dirhandle = Some 1
   \<and> dosync_count (Some 0) (snd (fsync_checked (handles world_dirhandle ! 0) world_dirhandle)) = Some 1
   \<and> \<not> handles_inv
        (dosync_store 0 1 (dosync_store 0 1
           (snd (fsync_checked (handles world_dirhandle ! 0)
              (snd (fsync_checked (handles world_dirhandle ! 0) world_dirhandle))))))
   \<and> wh_byteswrittenatlastfsync (win_handles win_world_big ! 0)
        \<le> wh_byteswritten (win_handles win_world_big ! 0)
   \<and> \<not> wh_byteswrittenatlastfsync (win_handles (snd (dosync_windows 1 (Some 0) no_op win_world_big)) ! 0)
        \<le> wh_byteswritten (win_handles (snd (dosync_windows 1 (Some 0) no_op win_world_big)) ! 0)"
proof -
  have w: "wh_byteswrittenatlastfsync (win_handles win_world_big ! 0)
        \<le> wh_byteswritten (win_handles win_world_big ! 0)"
    "\<not> wh_byteswrittenatlastfsync (win_handles (snd (dosync_windows 1 (Some 0) no_op win_world_big)) ! 0)
        \<le> wh_byteswritten (win_handles (snd (dosync_windows 1 (Some 0) no_op win_world_big)) ! 0)"
    by (simp_all add: win_first_sync) (simp add: win_world_big_def)
  have p: "handles_inv world_dirhandle"
    "dosync_count (Some 0) world_dirhandle = Some 1"
    "dosync_count (Some 0) (snd (fsync_checked (handles world_dirhandle ! 0) world_dirhandle)) = Some 1"
    "\<not> handles_inv
        (dosync_store 0 1 (dosync_store 0 1
           (snd (fsync_checked (handles world_dirhandle ! 0)
              (snd (fsync_checked (handles world_dirhandle ! 0) world_dirhandle))))))"
    by (simp_all add: world_dirhandle_def world0_def handles_inv_def handle_inv_def
        dosync_count_def dosync_store_def deref_def write_count_since_fsync_def
        fsync_checked_def posix_fsync_def ERRHOSFN_def Let_def word_le_nat_alt)
  from w p show ?thesis by blast
qed

section \<open>The allocation of ids\<close>

lemma alloc_id_eq: "alloc_id c = (if c + 1 = 0 then 1 else c + 1)"
  by (subst alloc_id.simps, subst alloc_id.simps) (simp add: Let_def)

lemma alloc_id_nonzero: "alloc_id c \<noteq> 0"
  by (simp add: alloc_id_eq)

lemma alloc_id_succ: "c \<noteq> - 1 \<Longrightarrow> alloc_id c = c + 1 \<and> c < alloc_id c"
proof -
  assume c: "c \<noteq> - 1"
  then have nz: "c + 1 \<noteq> 0"
    by (metis add.commute add_eq_0_iff)
  then have "alloc_id c = c + 1" by (simp add: alloc_id_eq)
  moreover from c have "c < c + 1"
    using inc_less_eq_self_iff_eq [of c] by (simp add: not_le)
  ultimately show ?thesis by simp
qed

lemma alloc_id_wrap: "alloc_id (- 1) = 1"
  by (simp add: alloc_id_eq)

lemma issued_Suc: "issued (Suc n) = alloc_id (issued n)"
  by (simp add: issued_def)

lemma issued_of_nat: "n < 2 ^ 64 \<Longrightarrow> issued n = of_nat n"
proof (induction n)
  case 0
  then show ?case by (simp add: issued_def)
next
  case (Suc n)
  then have ih: "issued n = of_nat n" by simp
  have "(of_nat (Suc n) :: size_t) \<noteq> 0"
    using Suc.prems by (intro of_nat_neq_0) simp_all
  then have nz: "(of_nat n :: size_t) + 1 \<noteq> 0" by (simp add: add.commute)
  then have "alloc_id (of_nat n) = of_nat n + 1"
    by (simp add: alloc_id_eq)
  with ih show ?case by (simp add: issued_Suc)
qed

lemma issued_mono: "m < n \<Longrightarrow> n < 2 ^ 64 \<Longrightarrow> issued m < issued n"
  by (simp add: issued_of_nat word_of_nat_less_iff take_bit_nat_eq_self)

lemma issued_nonzero: "issued (Suc n) \<noteq> 0"
  by (simp add: issued_Suc alloc_id_nonzero)

lemma issued_wrap: "issued (2 ^ 64) = 1"
proof -
  have "issued (2 ^ 64 - 1) = of_nat (2 ^ 64 - 1)"
    by (rule issued_of_nat) simp
  also have "\<dots> = (- 1 :: size_t)" by simp
  finally have "alloc_id (issued (2 ^ 64 - 1)) = 1"
    by (simp only: alloc_id_wrap)
  then have "issued (Suc (2 ^ 64 - 1)) = 1"
    by (simp only: issued_Suc)
  moreover have "Suc (2 ^ 64 - 1) = (2 ^ 64 :: nat)" by simp
  ultimately show ?thesis by (simp only:)
qed

lemma issued_1: "issued 1 = 1"
  by (simp add: issued_def alloc_id_eq)

lemma chain_async_op_count:
  "chain_async_op ot pre det f flt w = (r, w1) \<Longrightarrow>
     monotoniccount w1 = alloc_id (monotoniccount w) \<and>
     (\<forall>ref. r = Inr ref \<longrightarrow> op_id ref = alloc_id (monotoniccount w))"
  unfolding chain_async_op_def Let_def
  by (auto split: prod.splits sum.splits option.splits if_splits
      simp: queue_now_def enqueue_def undep_def unopsit_def new_promise_def Let_def)

lemma enqueue_completions_count:
  "enqueue_completions cs hp w = (r, w1) \<Longrightarrow> monotoniccount w1 = monotoniccount w"
  by (induction cs hp w rule: enqueue_completions.induct)
     (auto simp: enqueue_def Let_def split: option.splits)

lemma complete_async_op_count:
  "complete_async_op i hp e w = (r, w1) \<Longrightarrow> monotoniccount w1 = monotoniccount w"
  unfolding complete_async_op_def
  by (auto split: prod.splits sum.splits option.splits if_splits
      dest!: enqueue_completions_count simp: finish_async_op_def Let_def)

lemma call_prim_count:
  "call_prim f i hp w = (r, w1) \<Longrightarrow> monotoniccount w1 = monotoniccount w"
  by (drule call_prim_disp) (simp add: disp_part_def)

lemma invoke_count:
  "invoke_async_op_completions i hp f w = (r, w1) \<Longrightarrow> monotoniccount w1 = monotoniccount w"
  unfolding invoke_async_op_completions_def invoke_try_def invoke_catch_def
  by (auto split: prod.splits sum.splits failure.splits option.splits if_splits
      dest!: complete_async_op_count call_prim_count)

lemma run_task_count:
  "run_task k w = (r, w1) \<Longrightarrow> monotoniccount w1 = monotoniccount w"
  unfolding run_task_def Let_def
  by (auto split: prod.splits sum.splits failure.splits if_splits dest!: invoke_count)

text \<open>
  C4, as amended. The id a call of \<open>chain_async_op\<close> allocates is \<open>alloc_id\<close> of the
  counter, which becomes the counter; nothing else changes the counter. An id is never
  zero. While the counter is below its greatest value the id is the counter plus one,
  and greater than it; so of the ids a dispatcher issues (\<open>issued n\<close> is the \<open>n\<close>-th)
  the first \<open>2^64 - 1\<close> are strictly increasing.
\<close>

theorem ids_nonzero_increasing_until_wrap:
  "(chain_async_op ot pre det f flt w = (r, w1) \<longrightarrow>
      monotoniccount w1 = alloc_id (monotoniccount w) \<and>
      (\<forall>ref. r = Inr ref \<longrightarrow> op_id ref = alloc_id (monotoniccount w)))
   \<and> monotoniccount (snd (run_task k w)) = monotoniccount w
   \<and> monotoniccount (snd (complete_async_op i hp e w)) = monotoniccount w
   \<and> alloc_id c \<noteq> 0
   \<and> (c \<noteq> - 1 \<longrightarrow> alloc_id c = c + 1 \<and> c < alloc_id c)
   \<and> issued 0 = monotoniccount world0
   \<and> issued (Suc n) = alloc_id (issued n)
   \<and> issued (Suc n) \<noteq> 0
   \<and> (m < n \<and> n < 2 ^ 64 \<longrightarrow> issued m < issued n)"
proof (intro conjI impI)
  assume "chain_async_op ot pre det f flt w = (r, w1)"
  from chain_async_op_count [OF this]
  show "monotoniccount w1 = alloc_id (monotoniccount w)"
    and "\<forall>ref. r = Inr ref \<longrightarrow> op_id ref = alloc_id (monotoniccount w)"
    by simp_all
next
  show "monotoniccount (snd (run_task k w)) = monotoniccount w"
    by (rule run_task_count [of k w "fst (run_task k w)"]) simp
  show "monotoniccount (snd (complete_async_op i hp e w)) = monotoniccount w"
    by (rule complete_async_op_count [of i hp e w "fst (complete_async_op i hp e w)"]) simp
  show "alloc_id c \<noteq> 0" by (rule alloc_id_nonzero)
  show "issued 0 = monotoniccount world0" by (simp add: issued_def world0_def)
  show "issued (Suc n) = alloc_id (issued n)" by (rule issued_Suc)
  show "issued (Suc n) \<noteq> 0" by (rule issued_nonzero)
next
  assume "c \<noteq> - 1"
  then show "alloc_id c = c + 1" "c < alloc_id c" using alloc_id_succ by blast+
next
  assume "m < n \<and> n < 2 ^ 64"
  then show "issued m < issued n" using issued_mono by blast
qed

lemma chain_world0:
  "chain_async_op Op_sync no_op False (F_dosync no_op) NoFault world0
     = (Inr \<lparr>op_id = 1, op_h = Some 0\<rparr>,
        world0\<lparr>monotoniccount := 1,
          ops := [1 \<mapsto> \<lparr>optype = Op_sync, h_fut = Some 0, detached_promise = None, completions = []\<rparr>],
          pool := [\<lparr>t_cell = 0, t_id = 1, t_prim = F_dosync no_op, t_h = None\<rparr>],
          futures := [Pending], dbg := [ev_I 1]\<rparr>)"
  by (simp add: chain_async_op_def queue_now_def enqueue_def no_op_def world0_def alloc_id_eq Let_def)

theorem ids_nonzero_increasing_until_wrap_witness:
  "monotoniccount (snd (chain_async_op Op_sync no_op False (F_dosync no_op) NoFault world0)) = 1
   \<and> fst (chain_async_op Op_sync no_op False (F_dosync no_op) NoFault world0)
        = Inr \<lparr>op_id = 1, op_h = Some 0\<rparr>
   \<and> alloc_id 5 = 6 \<and> (5 :: size_t) < alloc_id 5
   \<and> issued 1 < issued 2"
proof -
  note T = ids_nonzero_increasing_until_wrap [where ot = Op_sync and pre = no_op and det = False
      and f = "F_dosync no_op" and flt = NoFault and w = world0
      and r = "fst (chain_async_op Op_sync no_op False (F_dosync no_op) NoFault world0)"
      and ?w1.0 = "snd (chain_async_op Op_sync no_op False (F_dosync no_op) NoFault world0)"
      and c = 5 and m = 1 and n = 2]
  have a: "alloc_id (monotoniccount world0) = 1"
    by (simp add: world0_def alloc_id_eq)
  from T a have "monotoniccount (snd (chain_async_op Op_sync no_op False (F_dosync no_op) NoFault world0)) = 1"
    by simp
  moreover have "fst (chain_async_op Op_sync no_op False (F_dosync no_op) NoFault world0)
        = Inr \<lparr>op_id = 1, op_h = Some 0\<rparr>"
    by (simp add: chain_world0)
  moreover from T have "alloc_id 5 = 6" "(5 :: size_t) < alloc_id 5" "issued 1 < issued 2"
    by simp_all
  ultimately show ?thesis by blast
qed

text \<open>
  C4 as stated fails: after \<open>2^64 - 1\<close> allocations the counter of a dispatcher is at its
  greatest value; the next allocation wraps it to zero, skips zero and issues 1, the id
  the first allocation issued, which is not greater than the one before it.
\<close>

theorem id_reused_after_wrap:
  "issued (2 ^ 64) = issued 1
   \<and> monotoniccount world_wrapped = issued (2 ^ 64 - 1)
   \<and> fst (chain_async_op Op_sync no_op False (F_dosync no_op) NoFault world_wrapped)
        = Inr \<lparr>op_id = 1, op_h = Some 0\<rparr>
   \<and> \<not> monotoniccount world_wrapped < 1"
proof -
  have "issued (2 ^ 64 - 1) = of_nat (2 ^ 64 - 1)"
    by (rule issued_of_nat) simp
  then have "monotoniccount world_wrapped = issued (2 ^ 64 - 1)"
    by (simp add: world_wrapped_def)
  moreover have "fst (chain_async_op Op_sync no_op False (F_dosync no_op) NoFault world_wrapped)
        = Inr \<lparr>op_id = 1, op_h = Some 0\<rparr>"
    by (simp add: chain_async_op_def queue_now_def enqueue_def no_op_def world_wrapped_def
        world0_def alloc_id_eq Let_def)
  moreover have "\<not> monotoniccount world_wrapped < 1"
    by (simp add: world_wrapped_def)
  moreover have "issued (2 ^ 64) = issued 1"
    by (simp only: issued_wrap issued_1)
  ultimately show ?thesis by blast
qed

section \<open>Completion and chaining\<close>

lemma call_prim_ops: "call_prim f i hp w = (r, w1) \<Longrightarrow> ops w1 = ops w"
  by (drule call_prim_disp) (simp add: disp_part_def)

lemma complete_absent:
  "ops w i = None \<Longrightarrow> complete_async_op i hp e w = (Inl (Threw (runtime_error op_not_found)), w)"
  by (simp add: complete_async_op_def)

lemma invoke_absent:
  assumes "ops w i = None" and "call_prim f i hp w = (Inr (d, h2), w1)"
  shows "invoke_async_op_completions i hp f w = (Inl (Threw (runtime_error op_not_found)), w1)"
proof -
  from assms have "ops w1 i = None" by (simp add: call_prim_ops)
  then show ?thesis
    using assms(2)
    by (simp add: invoke_async_op_completions_def invoke_try_def invoke_catch_def complete_absent)
qed

lemma chain_rollback:
  "chain_async_op ot pre det f flt w = (Inl (Threw x), w1) \<Longrightarrow>
     ops w1 = ops w \<and>
     (dbg w1 = dbg w \<or>
      dbg w1 = dbg w @ [ev_I (alloc_id (monotoniccount w)), ev_ER (alloc_id (monotoniccount w))])"
  unfolding chain_async_op_def Let_def
  by (auto split: prod.splits sum.splits option.splits if_splits
      simp: queue_now_def enqueue_def undep_def unopsit_def new_promise_def Let_def fun_upd_idem
        fun_upd_twist)

lemma run_task_absent:
  assumes k: "k < length (pool w)" and none: "ops w (t_id (pool w ! k)) = None"
    and prim: "call_prim (t_prim (pool w ! k)) (t_id (pool w ! k)) (t_h (pool w ! k))
                 (w\<lparr>pool := take k (pool w) @ drop (Suc k) (pool w)\<rparr>) = (Inr (d, h2), w1)"
  shows "run_task k w =
           (Inr (), w1\<lparr>futures := (futures w1)[t_cell (pool w ! k) := Failed (runtime_error op_not_found)]\<rparr>)"
proof -
  from none have "ops (w\<lparr>pool := take k (pool w) @ drop (Suc k) (pool w)\<rparr>) (t_id (pool w ! k)) = None"
    by simp
  from invoke_absent [OF this prim] k show ?thesis
    by (simp add: run_task_def Let_def)
qed

text \<open>
  C2, as amended. Called with an id that is not in the registry, \<open>complete_async_op\<close>
  throws a \<open>std::runtime_error\<close> at once and leaves the state as it was: no child is
  queued, no promise fulfilled, nothing erased. The exception is an ordinary one: the
  wrapper \<open>invoke_async_op_completions\<close> catches it, tries the completion again, which
  throws again, and lets that propagate; the worker stores it in the future of the task
  and carries on.
\<close>

theorem complete_async_op_unknown_id_throws:
  "ops w i = None \<longrightarrow>
     complete_async_op i hp e w = (Inl (Threw (runtime_error op_not_found)), w)
     \<and> invoke_catch i hp x w = (Inl (Threw (runtime_error op_not_found)), w)
     \<and> (call_prim f i hp w = (Inr (d, h2), w1) \<longrightarrow>
          invoke_async_op_completions i hp f w = (Inl (Threw (runtime_error op_not_found)), w1))
     \<and> (k < length (pool w) \<and> t_id (pool w ! k) = i \<and>
          call_prim (t_prim (pool w ! k)) i (t_h (pool w ! k))
            (w\<lparr>pool := take k (pool w) @ drop (Suc k) (pool w)\<rparr>) = (Inr (d, h2), w1) \<longrightarrow>
          run_task k w =
            (Inr (), w1\<lparr>futures := (futures w1)
                 [t_cell (pool w ! k) := Failed (runtime_error op_not_found)]\<rparr>))"
proof (intro impI conjI)
  assume none: "ops w i = None"
  show "complete_async_op i hp e w = (Inl (Threw (runtime_error op_not_found)), w)"
    by (rule complete_absent [OF none])
  show "invoke_catch i hp x w = (Inl (Threw (runtime_error op_not_found)), w)"
    by (simp add: invoke_catch_def complete_absent [OF none])
  {
    assume "call_prim f i hp w = (Inr (d, h2), w1)"
    then show "invoke_async_op_completions i hp f w = (Inl (Threw (runtime_error op_not_found)), w1)"
      by (rule invoke_absent [OF none])
  }
  {
    assume a: "k < length (pool w) \<and> t_id (pool w ! k) = i \<and>
          call_prim (t_prim (pool w ! k)) i (t_h (pool w ! k))
            (w\<lparr>pool := take k (pool w) @ drop (Suc k) (pool w)\<rparr>) = (Inr (d, h2), w1)"
    then show "run_task k w =
            (Inr (), w1\<lparr>futures := (futures w1)
                 [t_cell (pool w ! k) := Failed (runtime_error op_not_found)]\<rparr>)"
      using none run_task_absent [of k w d h2 w1] by auto
  }
qed

lemma orphan_prim:
  "call_prim (F_dosync no_op) 7 (Some 0) (world_orphan\<lparr>pool := []\<rparr>)
     = (Inr (True, Some 0),
        world_orphan\<lparr>pool := [], syslog := [sys_fsync 3],
          handles := [\<lparr>h_path = [''t'', ''a''], fd = 3, has_been_added = True, autoflush = False,
            has_ever_been_fsynced = True, byteswritten = 5, byteswrittenatlastfsync = 5\<rparr>]\<rparr>)"
  by (simp add: world_orphan_def world_dirty_def world0_def dosync_def deref_def
      write_count_since_fsync_def fsync_checked_def posix_fsync_def ERRHOSFN_def Let_def)

theorem complete_async_op_unknown_id_throws_witness:
  "ops world_orphan 7 = None
   \<and> complete_async_op 7 None None world_orphan
        = (Inl (Threw (runtime_error op_not_found)), world_orphan)
   \<and> fst (run_task 0 world_orphan) = Inr ()
   \<and> futures (snd (run_task 0 world_orphan)) = [Failed (runtime_error op_not_found)]"
proof -
  have none: "ops world_orphan 7 = None"
    by (simp add: world_orphan_def world_dirty_def world0_def)
  have p: "pool world_orphan = [\<lparr>t_cell = 0, t_id = 7, t_prim = F_dosync no_op, t_h = Some 0\<rparr>]"
    "futures world_orphan = [Pending]"
    by (simp_all add: world_orphan_def)
  note T = complete_async_op_unknown_id_throws [where w = world_orphan and i = 7 and hp = None
      and e = None and k = 0 and d = True and ?h2.0 = "Some 0"
      and ?w1.0 = "world_orphan\<lparr>pool := [], syslog := [sys_fsync 3],
          handles := [\<lparr>h_path = [''t'', ''a''], fd = 3, has_been_added = True, autoflush = False,
            has_ever_been_fsynced = True, byteswritten = 5, byteswrittenatlastfsync = 5\<rparr>]\<rparr>"]
  from T none have c: "complete_async_op 7 None None world_orphan
        = (Inl (Threw (runtime_error op_not_found)), world_orphan)"
    by blast
  from T none p orphan_prim
  have "run_task 0 world_orphan =
     (Inr (), world_orphan\<lparr>pool := [], syslog := [sys_fsync 3],
          handles := [\<lparr>h_path = [''t'', ''a''], fd = 3, has_been_added = True, autoflush = False,
            has_ever_been_fsynced = True, byteswritten = 5, byteswrittenatlastfsync = 5\<rparr>],
          futures := [Failed (runtime_error op_not_found)]\<rparr>)"
    by (simp add: p)
  then have "fst (run_task 0 world_orphan) = Inr ()"
    "futures (snd (run_task 0 world_orphan)) = [Failed (runtime_error op_not_found)]"
    by simp_all
  with none c show ?thesis by blast
qed

text \<open>
  C2 as stated fails: on a new dispatcher the completion of the unknown id 1 does not
  end the program (\<open>Terminated\<close> is \<open>std::terminate\<close>, which the source calls elsewhere);
  it throws an exception that a caller can catch.
\<close>

theorem complete_async_op_unknown_id_does_not_abort:
  "ops world0 1 = None
   \<and> fst (complete_async_op 1 None None world0) \<noteq> Inl Terminated
   \<and> fst (complete_async_op 1 None None world0) = Inl (Threw (runtime_error op_not_found))"
  by (simp add: complete_async_op_def world0_def)

lemma chain_insert_throws:
  "op_id pre \<noteq> 0 \<Longrightarrow> ops w (op_id pre) = Some dep \<Longrightarrow>
     chain_async_op ot pre det f InsertThrows w
       = (Inl (Threw bad_alloc), w\<lparr>monotoniccount := alloc_id (monotoniccount w)\<rparr>)"
  by (simp add: chain_async_op_def undep_def Let_def fun_upd_idem)

lemma chain_promise_throws:
  "op_id pre \<noteq> 0 \<Longrightarrow> ops w (op_id pre) = Some dep \<Longrightarrow> ops w (alloc_id (monotoniccount w)) = None \<Longrightarrow>
     chain_async_op ot pre True f PromiseThrows w
       = (Inl (Threw bad_alloc),
          w\<lparr>monotoniccount := alloc_id (monotoniccount w),
            dbg := dbg w @ [ev_I (alloc_id (monotoniccount w)), ev_ER (alloc_id (monotoniccount w))]\<rparr>)"
  by (auto simp: chain_async_op_def undep_def unopsit_def Let_def fun_upd_idem fun_upd_twist)

lemma chain_success_links:
  "chain_async_op ot pre det f NoFault w = (Inr ref, w1) \<Longrightarrow>
     ops w1 (op_id ref) \<noteq> None \<and>
     (op_id pre \<noteq> 0 \<and> ops w (op_id pre) = Some dep \<longrightarrow>
        (\<exists>dep'. ops w1 (op_id pre) = Some dep' \<and>
           completions dep' = completions dep @ [(op_id ref, f)]))"
  unfolding chain_async_op_def Let_def
  by (auto split: prod.splits sum.splits option.splits if_splits
      simp: queue_now_def enqueue_def new_promise_def Let_def)

text \<open>
  C3. Whenever \<open>chain_async_op\<close> ends by an exception, the registry, with the completion
  lists of its records, is what it was before the call; the trace is unchanged or shows
  the new record inserted and then erased. With a precondition in flight, a throw of the
  insertion into the registry leaves the whole state, the counter apart, as it was, the
  link made before having been removed; a throw of the allocation of the detached
  promise likewise, the inserted record having been erased too. A call that succeeds
  leaves the new record in the registry and, with a precondition in flight, the new
  link at the end of its completion list: that is what the failing calls undo.
\<close>

theorem chain_async_op_rolls_back_on_failure:
  "(chain_async_op ot pre det f flt w = (Inl (Threw x), w1) \<longrightarrow>
      ops w1 = ops w \<and>
      (dbg w1 = dbg w \<or>
       dbg w1 = dbg w @ [ev_I (alloc_id (monotoniccount w)), ev_ER (alloc_id (monotoniccount w))]))
   \<and> (op_id pre \<noteq> 0 \<and> ops w (op_id pre) = Some dep \<longrightarrow>
        chain_async_op ot pre det f InsertThrows w
          = (Inl (Threw bad_alloc), w\<lparr>monotoniccount := alloc_id (monotoniccount w)\<rparr>))
   \<and> (op_id pre \<noteq> 0 \<and> ops w (op_id pre) = Some dep \<and> ops w (alloc_id (monotoniccount w)) = None \<longrightarrow>
        chain_async_op ot pre True f PromiseThrows w
          = (Inl (Threw bad_alloc),
             w\<lparr>monotoniccount := alloc_id (monotoniccount w),
               dbg := dbg w @ [ev_I (alloc_id (monotoniccount w)),
                               ev_ER (alloc_id (monotoniccount w))]\<rparr>))
   \<and> (chain_async_op ot pre det f NoFault w = (Inr ref, w2) \<longrightarrow>
        ops w2 (op_id ref) \<noteq> None \<and>
        (op_id pre \<noteq> 0 \<and> ops w (op_id pre) = Some dep \<longrightarrow>
           (\<exists>dep'. ops w2 (op_id pre) = Some dep' \<and>
              completions dep' = completions dep @ [(op_id ref, f)])))"
proof (intro conjI impI)
  assume "chain_async_op ot pre det f flt w = (Inl (Threw x), w1)"
  from chain_rollback [OF this]
  show "ops w1 = ops w"
    and "dbg w1 = dbg w \<or>
       dbg w1 = dbg w @ [ev_I (alloc_id (monotoniccount w)), ev_ER (alloc_id (monotoniccount w))]"
    by simp_all
next
  assume "op_id pre \<noteq> 0 \<and> ops w (op_id pre) = Some dep"
  then show "chain_async_op ot pre det f InsertThrows w
          = (Inl (Threw bad_alloc), w\<lparr>monotoniccount := alloc_id (monotoniccount w)\<rparr>)"
    using chain_insert_throws by blast
next
  assume "op_id pre \<noteq> 0 \<and> ops w (op_id pre) = Some dep \<and> ops w (alloc_id (monotoniccount w)) = None"
  then show "chain_async_op ot pre True f PromiseThrows w
          = (Inl (Threw bad_alloc),
             w\<lparr>monotoniccount := alloc_id (monotoniccount w),
               dbg := dbg w @ [ev_I (alloc_id (monotoniccount w)),
                               ev_ER (alloc_id (monotoniccount w))]\<rparr>)"
    using chain_promise_throws by blast
next
  assume a: "chain_async_op ot pre det f NoFault w = (Inr ref, w2)"
  from chain_success_links [OF a] show "ops w2 (op_id ref) \<noteq> None" by blast
  assume "op_id pre \<noteq> 0 \<and> ops w (op_id pre) = Some dep"
  with chain_success_links [OF a, of dep]
  show "\<exists>dep'. ops w2 (op_id pre) = Some dep' \<and>
              completions dep' = completions dep @ [(op_id ref, f)]"
    by blast
qed

theorem chain_async_op_rolls_back_on_failure_witness:
  "ops world_inflight 1 = Some \<lparr>optype = Op_file, h_fut = Some 0, detached_promise = None,
       completions = []\<rparr>
   \<and> chain_async_op Op_write \<lparr>op_id = 1, op_h = Some 0\<rparr> False (F_dosync no_op) InsertThrows world_inflight
        = (Inl (Threw bad_alloc), world_inflight\<lparr>monotoniccount := 2\<rparr>)
   \<and> chain_async_op Op_write \<lparr>op_id = 1, op_h = Some 0\<rparr> True (F_dosync no_op) PromiseThrows world_inflight
        = (Inl (Threw bad_alloc), world_inflight\<lparr>monotoniccount := 2, dbg := [ev_I 1, ev_I 2, ev_ER 2]\<rparr>)
   \<and> ops (snd (chain_async_op Op_write \<lparr>op_id = 1, op_h = Some 0\<rparr> True (F_dosync no_op) PromiseThrows
        world_inflight)) = ops world_inflight"
proof -
  have o: "ops world_inflight 1 = Some \<lparr>optype = Op_file, h_fut = Some 0, detached_promise = None,
       completions = []\<rparr>" "ops world_inflight 2 = None"
    "alloc_id (monotoniccount world_inflight) = 2" "dbg world_inflight = [ev_I 1]"
    by (simp_all add: world_inflight_def world0_def alloc_id_eq)
  note T = chain_async_op_rolls_back_on_failure [where w = world_inflight
      and pre = "\<lparr>op_id = 1, op_h = Some 0\<rparr>" and ot = Op_write and f = "F_dosync no_op"
      and dep = "\<lparr>optype = Op_file, h_fut = Some 0, detached_promise = None, completions = []\<rparr>"
      and det = True and flt = PromiseThrows and x = bad_alloc
      and ?w1.0 = "world_inflight\<lparr>monotoniccount := 2, dbg := [ev_I 1, ev_I 2, ev_ER 2]\<rparr>"]
  note U = chain_async_op_rolls_back_on_failure [where w = world_inflight
      and pre = "\<lparr>op_id = 1, op_h = Some 0\<rparr>" and ot = Op_write and f = "F_dosync no_op"
      and dep = "\<lparr>optype = Op_file, h_fut = Some 0, detached_promise = None, completions = []\<rparr>"
      and det = False]
  from U o have i: "chain_async_op Op_write \<lparr>op_id = 1, op_h = Some 0\<rparr> False (F_dosync no_op)
      InsertThrows world_inflight = (Inl (Threw bad_alloc), world_inflight\<lparr>monotoniccount := 2\<rparr>)"
    by simp
  from T o have p: "chain_async_op Op_write \<lparr>op_id = 1, op_h = Some 0\<rparr> True (F_dosync no_op)
      PromiseThrows world_inflight
        = (Inl (Threw bad_alloc), world_inflight\<lparr>monotoniccount := 2, dbg := [ev_I 1, ev_I 2, ev_ER 2]\<rparr>)"
    by simp
  then have "ops (snd (chain_async_op Op_write \<lparr>op_id = 1, op_h = Some 0\<rparr> True (F_dosync no_op)
      PromiseThrows world_inflight)) = ops world_inflight"
    by simp
  with o(1) i p show ?thesis by blast
qed

section \<open>\<open>dodir\<close> on a directory that exists\<close>

text \<open>
  C5. The request asks for \<open>Create\<close> and \<open>CreateOnlyIfNotExist\<close> on a directory that
  exists. \<open>mkdir\<close> fails with \<open>EEXIST\<close>, and \<open>dodir\<close> nevertheless returns a handle and
  throws nothing, with or without \<open>Read\<close>: the result of \<open>mkdir\<close> is never tested.
\<close>

theorem dodir_exclusive_create_of_existing_directory_succeeds:
  "map_of (files world_t) [''t''] = Some Dir
   \<and> fileflags world_t (p_flags mk_t) = {Create, CreateOnlyIfNotExist}
   \<and> fst (posix_mkdir [''t''] world_t) = - 1
   \<and> errno (snd (posix_mkdir [''t''] world_t)) = EEXIST
   \<and> dodir 1 None mk_t world_t
       = (Inr (True, Some 0),
          world_t\<lparr>syslog := [sys_mkdir [''t''], sys_stat [''t'']], errno := EEXIST,
            handles := [\<lparr>h_path = [''t''], fd = - 999, has_been_added = False, autoflush = False,
               has_ever_been_fsynced = False, byteswritten = 0, byteswrittenatlastfsync = 0\<rparr>]\<rparr>)
   \<and> fst (dodir 1 None (mk_t\<lparr>p_flags := {Create, CreateOnlyIfNotExist, Read}\<rparr>) world_t)
       = Inr (True, Some 0)"
  by (simp add: world_t_def world0_def mk_t_def no_op_def dodir_def dofile_def dofile_flags_def
      fileflags_def posix_mkdir_def posix_stat_def posix_open_def new_fd_def
      new_async_io_handle_posix_def do_add_io_handle_to_parent_def deref_def ERRHOSFN_def
      parent_path_def Let_def)

section \<open>The batches of the entry points\<close>

lemma chain_loop_acc:
  "chain_loop g xs acc w =
     (case chain_loop g xs [] w of
        (Inl x, w1) \<Rightarrow> (Inl x, w1)
      | (Inr rs, w1) \<Rightarrow> (Inr (acc @ rs), w1))"
proof (induction xs arbitrary: acc w)
  case Nil
  then show ?case by simp
next
  case (Cons x xs)
  show ?case
  proof (cases "g x w")
    case (Pair rx wx)
    show ?thesis
    proof (cases rx)
      case (Inl e)
      with Pair show ?thesis by simp
    next
      case (Inr r)
      with Pair show ?thesis
        by (simp add: Cons.IH [of "acc @ [r]" wx] Cons.IH [of "[r]" wx]
            split: prod.splits sum.splits)
    qed
  qed
qed

lemma chain_loop_Cons:
  "chain_loop g (x # xs) [] w =
     (case g x w of
        (Inl e, w1) \<Rightarrow> (Inl e, w1)
      | (Inr r, w1) \<Rightarrow>
          (case chain_loop g xs [] w1 of
             (Inl e, w2) \<Rightarrow> (Inl e, w2)
           | (Inr rs, w2) \<Rightarrow> (Inr (r # rs), w2)))"
  by (simp add: chain_loop_acc [of g xs "[r]" for r] split: prod.splits sum.splits)

lemma chain_loop_in_order:
  "chain_loop g xs [] w = (Inr refs, w1) \<Longrightarrow> batch_in_order g xs w refs"
proof (induction xs arbitrary: w refs)
  case Nil
  then show ?case by (simp add: batch_in_order_def)
next
  case (Cons x xs)
  from Cons.prems have "(case g x w of
        (Inl e, w1) \<Rightarrow> (Inl e, w1)
      | (Inr r, w1) \<Rightarrow>
          (case chain_loop g xs [] w1 of
             (Inl e, w2) \<Rightarrow> (Inl e, w2)
           | (Inr rs, w2) \<Rightarrow> (Inr (r # rs), w2))) = (Inr refs, w1)"
    by (simp only: chain_loop_Cons)
  then obtain r wx rs where
    gx: "g x w = (Inr r, wx)" and rest: "chain_loop g xs [] wx = (Inr rs, w1)" and refs: "refs = r # rs"
    by (auto split: prod.splits sum.splits)
  from Cons.IH [OF rest] have ih: "batch_in_order g xs wx rs" .
  show ?case
    unfolding batch_in_order_def
  proof (intro conjI allI impI)
    show "length refs = length (x # xs)"
      using ih refs by (simp add: batch_in_order_def)
  next
    fix k assume k: "k < length (x # xs)"
    show "\<exists>wk wk'. chain_loop g (take k (x # xs)) [] w = (Inr (take k refs), wk) \<and>
        g ((x # xs) ! k) wk = (Inr (refs ! k), wk')"
    proof (cases k)
      case 0
      with gx refs show ?thesis by simp
    next
      case (Suc j)
      with k have "j < length xs" by simp
      with ih obtain wk wk' where
        "chain_loop g (take j xs) [] wx = (Inr (take j rs), wk)" "g (xs ! j) wk = (Inr (rs ! j), wk')"
        unfolding batch_in_order_def by blast
      with gx refs Suc show ?thesis
        by (simp add: chain_loop_Cons del: chain_loop.simps)
    qed
  qed
qed

lemma completion_loop_zip:
  "completion_loop xs cs acc w =
     chain_loop (\<lambda>ic. chain_async_op OpUserCompletion (fst ic) (fst (snd ic))
                   (F_invoke_user_completion (snd (snd ic))) NoFault) (zip xs cs) acc w"
  by (induction xs cs acc w rule: completion_loop.induct)
     (auto split: prod.splits sum.splits)

lemma loop_result:
  "chain_loop g xs [] w = (Inr refs, w1) \<Longrightarrow> length refs = length xs \<and> batch_in_order g xs w refs"
  using chain_loop_in_order [of g xs w refs w1] by (simp add: batch_in_order_def)

text \<open>
  C6, as amended. Whenever an entry point returns, it returns one reference for each
  input, in the order of the inputs: the \<open>k\<close>-th reference is the one \<open>chain_async_op\<close>
  (for \<open>close\<close>, the body of its loop) returned for the \<open>k\<close>-th input, called after the
  first \<open>k\<close> inputs had been chained. For \<open>completion\<close> the inputs are the pairs of an
  operation and a callback at the same position, as many as the shorter of the two
  vectors has elements.
\<close>

theorem batch_references_in_order:
  "(dir preqs w = (Inr refs, w1) \<longrightarrow>
      length refs = length preqs \<and>
      batch_in_order (\<lambda>i. chain_async_op Op_dir (p_precondition i) False (F_dodir i) NoFault)
        preqs w refs)
   \<and> (rmdir preqs w = (Inr refs, w1) \<longrightarrow>
      length refs = length preqs \<and>
      batch_in_order (\<lambda>i. chain_async_op Op_rmdir (p_precondition i) False (F_dormdir i) NoFault)
        preqs w refs)
   \<and> (file_entry preqs w = (Inr refs, w1) \<longrightarrow>
      length refs = length preqs \<and>
      batch_in_order (\<lambda>i. chain_async_op Op_file (p_precondition i) False (F_dofile i) NoFault)
        preqs w refs)
   \<and> (rmfile preqs w = (Inr refs, w1) \<longrightarrow>
      length refs = length preqs \<and>
      batch_in_order (\<lambda>i. chain_async_op Op_rmfile (p_precondition i) False (F_dormfile i) NoFault)
        preqs w refs)
   \<and> (sync reqs w = (Inr refs, w1) \<longrightarrow>
      length refs = length reqs \<and>
      batch_in_order (\<lambda>i. chain_async_op Op_sync i False (F_dosync i) NoFault) reqs w refs)
   \<and> (close lx reqs w = (Inr refs, w1) \<longrightarrow>
      length refs = length reqs \<and> batch_in_order (close_body lx) reqs w refs)
   \<and> (read_entry dreqs w = (Inr refs, w1) \<longrightarrow>
      length refs = length dreqs \<and>
      batch_in_order (\<lambda>i. chain_async_op Op_read (d_precondition i) False (F_doread i) NoFault)
        dreqs w refs)
   \<and> (write_entry dreqs w = (Inr refs, w1) \<longrightarrow>
      length refs = length dreqs \<and>
      batch_in_order (\<lambda>i. chain_async_op Op_write (d_precondition i) False (F_dowrite i) NoFault)
        dreqs w refs)
   \<and> (completion reqs cbs w = (Inr refs, w1) \<longrightarrow>
      length refs = min (length reqs) (length cbs) \<and>
      batch_in_order (\<lambda>ic. chain_async_op OpUserCompletion (fst ic) (fst (snd ic))
                         (F_invoke_user_completion (snd (snd ic))) NoFault)
        (zip reqs cbs) w refs)"
  unfolding dir_def rmdir_def file_entry_def rmfile_def sync_def close_def read_entry_def
    write_entry_def completion_def chain_async_ops_def chain_async_ops_path_def
    chain_async_ops_data_def completion_loop_zip
proof (intro conjI impI)
qed (drule loop_result, simp)+

lemma two_dirs:
  "dir [mk_t, mk_t] world0 =
     (Inr [\<lparr>op_id = 1, op_h = Some 0\<rparr>, \<lparr>op_id = 2, op_h = Some 1\<rparr>],
      world0\<lparr>monotoniccount := 2,
        ops := [1 \<mapsto> \<lparr>optype = Op_dir, h_fut = Some 0, detached_promise = None, completions = []\<rparr>,
                2 \<mapsto> \<lparr>optype = Op_dir, h_fut = Some 1, detached_promise = None, completions = []\<rparr>],
        pool := [\<lparr>t_cell = 0, t_id = 1, t_prim = F_dodir mk_t, t_h = None\<rparr>,
                 \<lparr>t_cell = 1, t_id = 2, t_prim = F_dodir mk_t, t_h = None\<rparr>],
        futures := [Pending, Pending], dbg := [ev_I 1, ev_I 2]\<rparr>)"
  by (simp add: dir_def chain_async_ops_path_def chain_async_op_def queue_now_def enqueue_def
      mk_t_def no_op_def world0_def alloc_id_eq Let_def)

theorem batch_references_in_order_witness:
  "fst (dir [mk_t, mk_t] world0) = Inr [\<lparr>op_id = 1, op_h = Some 0\<rparr>, \<lparr>op_id = 2, op_h = Some 1\<rparr>]
   \<and> length [\<lparr>op_id = 1, op_h = Some 0\<rparr>, \<lparr>op_id = 2, op_h = Some (1::nat)\<rparr>] = length [mk_t, mk_t]
   \<and> batch_in_order (\<lambda>i. chain_async_op Op_dir (p_precondition i) False (F_dodir i) NoFault)
        [mk_t, mk_t] world0 [\<lparr>op_id = 1, op_h = Some 0\<rparr>, \<lparr>op_id = 2, op_h = Some 1\<rparr>]"
  using batch_references_in_order [where preqs = "[mk_t, mk_t]" and w = world0
      and refs = "[\<lparr>op_id = 1, op_h = Some 0\<rparr>, \<lparr>op_id = 2, op_h = Some 1\<rparr>]"
      and ?w1.0 = "snd (dir [mk_t, mk_t] world0)", THEN conjunct1]
  by (simp add: two_dirs)

text \<open>
  C6 as stated fails for \<open>completion\<close>: given two operations and one callback it returns
  one reference.
\<close>

theorem completion_returns_fewer_references:
  "fst (completion [no_op, no_op] [(False, sample_callback)] world0)
     = Inr [\<lparr>op_id = 1, op_h = Some 0\<rparr>]
   \<and> length [\<lparr>op_id = 1, op_h = Some (0::nat)\<rparr>] \<noteq> length [no_op, no_op]"
  by (simp add: completion_def chain_async_op_def queue_now_def enqueue_def
      no_op_def world0_def alloc_id_eq Let_def)

section \<open>The close of a file that was fsynced\<close>


lemma task_effect_same:
  "ops w1 = ops w \<Longrightarrow> pool w1 = pool w \<Longrightarrow> dbg w1 = dbg w \<Longrightarrow> task_effect j w w1"
  by (auto simp: task_effect_def pool_ids_def)

























text \<open>What \<^verbatim>\<open>chain_async_op\<close> has done when it returns: chained on an operation in
  flight, or queued at once.\<close>

lemma future_get_count [simp]:
  "future_get fu (w\<lparr>monotoniccount := c\<rparr>) = future_get fu w"
  by (cases fu) (simp_all add: future_get_def)

lemma chain_in_flight:
  assumes "op_id pre \<noteq> 0" and "ops w (op_id pre) = Some dep"
    and "ops w (alloc_id (monotoniccount w)) = None"
  shows "chain_async_op ot pre False f NoFault w =
     (Inr \<lparr>op_id = alloc_id (monotoniccount w), op_h = None\<rparr>,
      w\<lparr>monotoniccount := alloc_id (monotoniccount w),
        ops := (ops w)(op_id pre \<mapsto> dep\<lparr>completions := completions dep @ [(alloc_id (monotoniccount w), f)]\<rparr>,
                 alloc_id (monotoniccount w) \<mapsto>
                   \<lparr>optype = ot, h_fut = None, detached_promise = None, completions = []\<rparr>),
        dbg := dbg w @ [ev_I (alloc_id (monotoniccount w))]\<rparr>)"
  using assms by (auto simp: chain_async_op_def Let_def)

lemma chain_at_once:
  assumes "op_id pre = 0 \<or> ops w (op_id pre) = None"
    and "op_h pre = None \<and> hp = None \<or> op_h pre \<noteq> None \<and> future_get (op_h pre) w = Inr hp"
    and "ops w (alloc_id (monotoniccount w)) = None"
  shows "chain_async_op ot pre False f NoFault w =
     (Inr \<lparr>op_id = alloc_id (monotoniccount w), op_h = Some (length (futures w))\<rparr>,
      w\<lparr>monotoniccount := alloc_id (monotoniccount w),
        pool := pool w @ [\<lparr>t_cell = length (futures w), t_id = alloc_id (monotoniccount w),
                           t_prim = f, t_h = hp\<rparr>],
        futures := futures w @ [Pending],
        ops := (ops w)(alloc_id (monotoniccount w) \<mapsto>
                   \<lparr>optype = ot, h_fut = Some (length (futures w)), detached_promise = None,
                    completions = []\<rparr>),
        dbg := dbg w @ [ev_I (alloc_id (monotoniccount w))]\<rparr>)"
  using assms by (auto simp: chain_async_op_def queue_now_def enqueue_def Let_def)

lemma chain_returns_cases:
  assumes "chain_async_op ot pre False f NoFault w = (Inr cl, w1)"
  shows "ops w (alloc_id (monotoniccount w)) = None \<and>
    ((\<exists>dep. op_id pre \<noteq> 0 \<and> ops w (op_id pre) = Some dep) \<or>
     (op_id pre = 0 \<or> ops w (op_id pre) = None) \<and>
     (\<exists>hp. op_h pre = None \<and> hp = None \<or> op_h pre \<noteq> None \<and> future_get (op_h pre) w = Inr hp))"
  using assms unfolding chain_async_op_def Let_def
  by (auto split: prod.splits sum.splits option.splits if_splits
      simp: queue_now_def enqueue_def Let_def)

lemma chain_result:
  assumes "chain_async_op ot pre False f NoFault w = (Inr cl, w1)"
  shows "op_id cl = alloc_id (monotoniccount w) \<and> ops w (op_id cl) = None \<and>
     monotoniccount w1 = op_id cl \<and> handles w1 = handles w \<and>
     ops w1 (op_id cl) = Some \<lparr>optype = ot, h_fut = op_h cl, detached_promise = None, completions = []\<rparr> \<and>
     ((\<exists>dep. op_id pre \<noteq> 0 \<and> ops w (op_id pre) = Some dep \<and> op_h cl = None \<and>
         pool w1 = pool w \<and> futures w1 = futures w \<and> dbg w1 = dbg w @ [ev_I (op_id cl)] \<and>
         ops w1 = (ops w)(op_id pre \<mapsto> dep\<lparr>completions := completions dep @ [(op_id cl, f)]\<rparr>,
                 op_id cl \<mapsto> \<lparr>optype = ot, h_fut = None, detached_promise = None, completions = []\<rparr>))
      \<or> (\<exists>hp. (op_id pre = 0 \<or> ops w (op_id pre) = None) \<and>
         pool w1 = pool w @ [\<lparr>t_cell = length (futures w), t_id = op_id cl, t_prim = f, t_h = hp\<rparr>] \<and>
         futures w1 = futures w @ [Pending] \<and> dbg w1 = dbg w @ [ev_I (op_id cl)] \<and>
         ops w1 = (ops w)(op_id cl \<mapsto>
             \<lparr>optype = ot, h_fut = op_h cl, detached_promise = None, completions = []\<rparr>)))"
proof -
  note free = chain_returns_cases [OF assms, THEN conjunct1]
  note cases = chain_returns_cases [OF assms, THEN conjunct2]
  show ?thesis
  proof (cases "op_id pre \<noteq> 0 \<and> ops w (op_id pre) \<noteq> None")
    case True
    then obtain dep where d: "op_id pre \<noteq> 0" "ops w (op_id pre) = Some dep" by blast
    from chain_in_flight [OF d free, of ot f] assms free d show ?thesis
      by auto
  next
    case False
    then have a: "op_id pre = 0 \<or> ops w (op_id pre) = None" by blast
    with cases obtain hp where
      b: "op_h pre = None \<and> hp = None \<or> op_h pre \<noteq> None \<and> future_get (op_h pre) w = Inr hp"
      by auto
    from chain_at_once [OF a b free, of ot f] assms free a show ?thesis
      by auto
  qed
qed






text \<open>An id that is not in the registry is unnamed where every id named is registered, as
  in a new dispatcher; \<^verbatim>\<open>chain_async_op\<close> keeps both.\<close>

lemma refs_registered_unnamed:
  "refs_registered w \<Longrightarrow> ops w b = None \<Longrightarrow> unnamed b w"
  by (auto simp: refs_registered_def unnamed_def)

lemma world0_refs: "refs_registered world0"
  by (simp add: refs_registered_def pool_ids_def children_of_def world0_def)

lemma chain_refs_registered:
  assumes run: "chain_async_op ot pre False f NoFault w = (Inr c, w1)" and rr: "refs_registered w"
  shows "refs_registered w1"
proof -
  note R = chain_result [OF run]
  from R consider
    (flight) dep where "op_id pre \<noteq> 0" "ops w (op_id pre) = Some dep" "pool w1 = pool w"
      "ops w1 = (ops w)(op_id pre \<mapsto> dep\<lparr>completions := completions dep @ [(op_id c, f)]\<rparr>,
                 op_id c \<mapsto> \<lparr>optype = ot, h_fut = None, detached_promise = None, completions = []\<rparr>)"
  | (now) hp where
      "pool w1 = pool w @ [\<lparr>t_cell = length (futures w), t_id = op_id c, t_prim = f, t_h = hp\<rparr>]"
      "ops w1 = (ops w)(op_id c \<mapsto>
             \<lparr>optype = ot, h_fut = op_h c, detached_promise = None, completions = []\<rparr>)"
    by blast
  then show ?thesis
  proof cases
    case flight
    have p: "pool_ids w1 = pool_ids w" by (simp add: pool_ids_def flight)
    have d: "dom (ops w1) = insert (op_id c) (dom (ops w))" using flight by auto
    have c: "children_of w1 y \<subseteq> insert (op_id c) (children_of w y)" for y
      using flight by (auto simp: children_of_def child_ids_def)
    from rr p d c show ?thesis unfolding refs_registered_def by blast
  next
    case now
    have p: "pool_ids w1 = insert (op_id c) (pool_ids w)" by (simp add: pool_ids_def now)
    have d: "dom (ops w1) = insert (op_id c) (dom (ops w))" using now by auto
    have c: "children_of w1 y \<subseteq> children_of w y" for y
      using now by (auto simp: children_of_def child_ids_def)
    from rr p d c show ?thesis unfolding refs_registered_def by blast
  qed
qed











end
